theory Spec2Isabelle
  imports Main "HOL-Library.AList" "HOL-Library.Sublist"
begin

section \<open>Values shared by the session model\<close>

text \<open>
  The development embeds \<^verbatim>\<open>src/SnackSession.js\<close>. JavaScript exceptions
  and rejected promises are values: a function that can throw returns
  \<open>js_error + 'a\<close>, with \<open>Inl\<close> carrying what was thrown.
\<close>

datatype js_error =
    Error string
  | TypeError string
  | SyntaxError string

subsection \<open>Bundler protocol\<close>

text \<open>
  What the bundler answers with as JSON: either \<^verbatim>\<open>{pending: true}\<close> or a
  terminal object \<^verbatim>\<open>{name, version, dependencies?}\<close>. The fallback objects
  built by \<^verbatim>\<open>_maybeFetchDependencyAsync\<close> have the same shape plus \<^verbatim>\<open>error\<close>.
\<close>

record dep_data =
  pending :: bool
  dep_name :: string
  dep_version :: string
  dep_dependencies :: "(string \<times> string) list option"
  dep_error :: "string option"

text \<open>
  An HTTP response as the code reads it: \<^verbatim>\<open>res.status\<close>, \<^verbatim>\<open>res.text()\<close>
  and \<^verbatim>\<open>res.json()\<close>, the latter failing on a body that is not JSON.
\<close>

record response =
  status :: nat
  body_text :: string
  body_json :: "dep_data option"

section \<open>Bundler polling: \<^verbatim>\<open>_tryFetchDependencyAsync\<close>\<close>

text \<open>
  The loop of lines 759-792. \<open>fetch n\<close> is the response to the \<open>n\<close>-th request
  that the loop sends for its \<^verbatim>\<open>(name, version)\<close>, counted from 1 as \<^verbatim>\<open>count\<close>
  is after \<^verbatim>\<open>count++\<close>. The result pairs the final value of \<^verbatim>\<open>count\<close>, which is
  the number of requests sent, with what the function returns or throws. The
  5 second sleep after a pending answer takes no part in the result and is left out.
\<close>

function tryFetchLoop ::
  "(nat \<Rightarrow> response) \<Rightarrow> nat \<Rightarrow> dep_data option \<Rightarrow> nat \<times> (js_error + dep_data)" where
  "tryFetchLoop fetch count data =
     (case (case data of Some d \<Rightarrow> (if pending d then None else Some d) | None \<Rightarrow> None) of
        Some d \<Rightarrow> (count, Inr d)
      | None \<Rightarrow>
          if count > 30 then (count, Inl (Error ''Request timed out''))
          else
            let count' = count + 1;
                res = fetch count'
            in if status res = 200 then
                 (case body_json res of
                    None \<Rightarrow> (count', Inl (SyntaxError ''Unexpected token''))
                  | Some d \<Rightarrow> tryFetchLoop fetch count' (Some d))
               else (count', Inl (Error (body_text res))))"
  by pat_completeness auto
termination
  by (relation "measure (\<lambda>(fetch, count, data). 31 - count)") auto

declare tryFetchLoop.simps [simp del]

definition tryFetchDependencyAsync :: "(nat \<Rightarrow> response) \<Rightarrow> nat \<times> (js_error + dep_data)" where
  "tryFetchDependencyAsync fetch = tryFetchLoop fetch 0 None"


text \<open>Two bundlers used to run the loop: one that never finishes, and one that
  finishes on its 31st answer.\<close>

definition pendingResponse :: response where
  "pendingResponse =
     \<lparr>status = 200, body_text = [],
      body_json = Some \<lparr>pending = True, dep_name = [], dep_version = [],
                         dep_dependencies = None, dep_error = None\<rparr>\<rparr>"

definition terminalResponse :: "dep_data \<Rightarrow> response" where
  "terminalResponse d = \<lparr>status = 200, body_text = [], body_json = Some d\<rparr>"

definition lodashData :: dep_data where
  "lodashData =
     \<lparr>pending = False, dep_name = ''lodash'', dep_version = ''4.17.4'',
      dep_dependencies = None, dep_error = None\<rparr>"

definition alwaysPending :: "nat \<Rightarrow> response" where
  "alwaysPending n = pendingResponse"

definition readyAtPoll31 :: "nat \<Rightarrow> response" where
  "readyAtPoll31 n = (if n \<le> 30 then pendingResponse else terminalResponse lodashData)"


section \<open>Listener arrays and event dispatch\<close>

















section \<open>The session: data\<close>

subsection \<open>JavaScript objects, strings and files\<close>

text \<open>
  A plain JavaScript object with string keys is a list of key-value pairs in
  insertion order, read with \<open>map_of\<close> and written with \<open>AList.update\<close>, which
  keeps an existing key in its place and appends a new one, as a property
  assignment does. (Integer-like keys, which JavaScript enumerates first, are not
  told apart.) An \<^verbatim>\<open>undefined\<close> or \<^verbatim>\<open>null\<close> value is \<open>None\<close>.
\<close>

type_synonym 'v obj = "(string \<times> 'v) list"

definition assign :: "'v obj \<Rightarrow> 'v obj \<Rightarrow> 'v obj" where
  \<comment> \<open>\<^verbatim>\<open>Object.assign(target, source)\<close>, also the spread \<^verbatim>\<open>{...target, ...source}\<close>\<close>
  "assign target source = foldl (\<lambda>acc (k, v). AList.update k v acc) target source"

definition truthy :: "string option \<Rightarrow> bool" where
  \<comment> \<open>a string-or-null used as a condition: the empty string is falsy\<close>
  "truthy v = (case v of None \<Rightarrow> False | Some s \<Rightarrow> s \<noteq> [])"

definition orElse :: "string option \<Rightarrow> string \<Rightarrow> string" where
  \<comment> \<open>\<^verbatim>\<open>v || d\<close>\<close>
  "orElse v d = (case v of None \<Rightarrow> d | Some s \<Rightarrow> if s = [] then d else s)"

fun toString :: "js_error \<Rightarrow> string" where
  "toString (Error m) = ''Error: '' @ m"
| "toString (TypeError m) = ''TypeError: '' @ m"
| "toString (SyntaxError m) = ''SyntaxError: '' @ m"

text \<open>
  A file is an object \<^verbatim>\<open>{type, contents}\<close> whose contents are a string or a binary
  blob; a blob is known by its handle. File objects are shared between the session
  and its callers and are mutated in place, so the file maps hold references and
  the objects live in a heap. Every reference denotes an object: the type
  \<^verbatim>\<open>ExpoSnackFiles\<close> has no null entries.
\<close>

type_synonym ref = nat

datatype contents = Str string | Blob nat

datatype file_type = CODE | ASSET

record snack_file =
  ftype :: file_type
  contents :: contents

definition isObject :: "contents \<Rightarrow> bool" where
  \<comment> \<open>\<^verbatim>\<open>typeof contents === 'object'\<close>\<close>
  "isObject c = (case c of Blob b \<Rightarrow> True | Str s \<Rightarrow> False)"

datatype feature = MULTIPLE_FILES | ARBITRARY_IMPORTS

subsection \<open>Constants of the module\<close>

definition MIN_CHANNEL_LENGTH :: nat where
  "MIN_CHANNEL_LENGTH = 6"

definition MAX_PUBNUB_SIZE :: nat where
  "MAX_PUBNUB_SIZE = 31500"

definition S3_BUCKET_URL :: string where
  "S3_BUCKET_URL = ''https://snack-code-uploads''"

definition reserved :: "string list" where
  "reserved = [''react'', ''react-native'', ''expo'']"

subsection \<open>What the session sends and keeps\<close>

text \<open>The three envelopes handed to \<^verbatim>\<open>pubnub.publish\<close>: a \<^verbatim>\<open>CODE\<close> message with
  \<^verbatim>\<open>diff\<close>, \<^verbatim>\<open>s3url\<close> and \<^verbatim>\<open>metadata\<close>, the legacy \<^verbatim>\<open>CODE\<close> message with \<^verbatim>\<open>code\<close> and
  \<^verbatim>\<open>metadata\<close>, and \<^verbatim>\<open>LOADING_MESSAGE\<close>.\<close>

datatype message =
    CODE_diff "string obj" "string obj" "string obj"
  | CODE_legacy contents "string obj"
  | LOADING_MESSAGE string

record initial_state =
  init_files :: "snack_file obj"
  init_name :: "string option"
  init_description :: "string option"
  init_dependencies :: "string obj"
  init_sdkVersion :: string

text \<open>What \<^verbatim>\<open>getState\<close> returns, and so what a state listener receives.\<close>

record state_event =
  st_files :: "snack_file obj"
  st_sdkVersion :: string
  st_name :: "string option"
  st_description :: "string option"
  st_dependencies :: "string obj"
  st_isSaved :: bool
  st_isResolving :: bool

text \<open>
  The fields of \<^verbatim>\<open>SnackSession\<close> that the modelled methods read or write. \<open>heap\<close>
  holds the file objects. \<open>pubnub\<close> says whether the transport client has been
  created. \<open>promises\<close> is the cache \<^verbatim>\<open>_promises\<close> once its promises have settled.
  The last four fields record effects: the messages handed to \<^verbatim>\<open>pubnub.publish\<close>, the
  states sent to the state listeners by \<^verbatim>\<open>_sendStateEvent\<close>, the number of calls of
  the debounced \<^verbatim>\<open>_publish\<close>, and the messages given to
  \<^verbatim>\<open>dependencyErrorListener\<close>.
\<close>

record session =
  files :: "ref obj"
  heap :: "ref \<Rightarrow> snack_file"
  s3code :: "contents obj"
  diff :: "string obj"
  s3url :: "string obj"
  snackId :: "string option"
  sdkVersion :: string
  isVerbose :: bool
  pubnub :: bool
  channel :: string
  host :: string
  name :: "string option"
  description :: "string option"
  dependencies :: "string obj"
  initialState :: initial_state
  isResolving :: bool
  authorizationToken :: "string option"
  loadingMessage :: "string option"
  promises :: "dep_data obj"
  published :: "message list"
  stateEvents :: "state_event list"
  publishScheduled :: nat
  dependencyErrors :: "string list"

record options =
  opt_files :: "ref obj"
  opt_sdkVersion :: "string option"
  opt_verbose :: bool
  opt_sessionId :: "string option"
  opt_host :: "string option"
  opt_authorizationToken :: "string option"
  opt_snackId :: "string option"
  opt_name :: "string option"
  opt_description :: "string option"
  opt_dependencies :: "string obj option"

record save_request =
  req_sdkVersion :: string
  req_name :: "string option"
  req_description :: "string option"
  req_dependencies :: "string obj option"
  req_code :: "snack_file obj"
  req_authorization :: "string option"

record save_data =
  save_id :: "string option"
  save_error :: "string option"

subsection \<open>The collaborators\<close>

text \<open>
  Everything the session calls that is not in \<^verbatim>\<open>SnackSession.js\<close>: the feature table
  and the default version of \<^verbatim>\<open>configs/sdkVersions\<close>, the version pins of
  \<^verbatim>\<open>configs/npmVersions\<close>, \<^verbatim>\<open>sendFileUtils\<close> (uploads, the diff and the size
  estimate), the scanner and the writer of \<^verbatim>\<open>findAndWriteDependencyVersions\<close>, the
  import inserter (with recast's \<^verbatim>\<open>parse\<close> and \<^verbatim>\<open>print\<close> around it), \<^verbatim>\<open>shortid\<close>, the
  analytics probes, and the network: the bundler by request path and request number,
  the CDN by hash and platform (\<open>None\<close> when \<^verbatim>\<open>fetch\<close> throws), and the save
  endpoint. A call that can throw or reject returns a sum.
\<close>

record env =
  sdkSupportsFeature :: "string \<Rightarrow> feature \<Rightarrow> bool"
  defaultSDKVersion :: string
  npmVersionPins_default :: string
  npmVersionPins_error :: string
  shortid_generate :: string
  uploadAssetToS3 :: "contents \<Rightarrow> js_error + string"
  uploadCodeToS3 :: "contents \<Rightarrow> js_error + string"
  getFileDiff :: "contents option \<Rightarrow> string \<Rightarrow> string"
  calcPayloadSize :: "string \<Rightarrow> string obj \<Rightarrow> string obj \<Rightarrow> nat"
  findModuleDependencies :: "string \<Rightarrow> js_error + string option obj"
  writeModuleVersions :: "string \<Rightarrow> string obj \<Rightarrow> js_error + string"
  insertImports :: "string \<Rightarrow> string list \<Rightarrow> js_error + string"
  analytics :: "string obj"
  bundler :: "string \<Rightarrow> nat \<Rightarrow> response"
  cdn_status :: "string \<Rightarrow> string \<Rightarrow> nat option"
  save_endpoint :: "save_request \<Rightarrow> js_error + save_data"

section \<open>The session: operations\<close>

subsection \<open>State, \<^verbatim>\<open>isSaved\<close> and state events\<close>

definition supportsFeature :: "env \<Rightarrow> session \<Rightarrow> feature \<Rightarrow> bool" where
  "supportsFeature e s feature = sdkSupportsFeature e (sdkVersion s) feature"

definition derefFiles :: "session \<Rightarrow> snack_file obj" where
  "derefFiles s = map (\<lambda>(key, r). (key, heap s r)) (files s)"

definition currentState :: "session \<Rightarrow> initial_state" where
  "currentState s =
     \<lparr>init_files = derefFiles s, init_name = name s, init_description = description s,
      init_dependencies = dependencies s, init_sdkVersion = sdkVersion s\<rparr>"

text \<open>
  lodash \<^verbatim>\<open>isEqual\<close> on plain objects compares the key sets and the values key by
  key, whatever the order of the keys; strings compare by value and a blob is equal
  to itself only. \<^verbatim>\<open>cloneDeep\<close> copies objects and keeps strings and blobs, so on
  values it changes nothing.
\<close>

definition isEqualObj :: "'v obj \<Rightarrow> 'v obj \<Rightarrow> bool" where
  "isEqualObj a b = list_all (\<lambda>k. map_of a k = map_of b k) (map fst a @ map fst b)"

definition isEqual :: "initial_state \<Rightarrow> initial_state \<Rightarrow> bool" where
  "isEqual a b =
     (isEqualObj (init_files a) (init_files b) \<and>
      init_name a = init_name b \<and>
      init_description a = init_description b \<and>
      isEqualObj (init_dependencies a) (init_dependencies b) \<and>
      init_sdkVersion a = init_sdkVersion b)"

definition cloneDeep :: "initial_state \<Rightarrow> initial_state" where
  "cloneDeep v = v"

definition isSaved :: "session \<Rightarrow> bool" where
  "isSaved s = isEqual (initialState s) (currentState s)"

definition getState :: "session \<Rightarrow> state_event" where
  "getState s =
     \<lparr>st_files = derefFiles s, st_sdkVersion = sdkVersion s, st_name = name s,
      st_description = description s, st_dependencies = dependencies s,
      st_isSaved = isSaved s, st_isResolving = isResolving s\<rparr>"

definition sendStateEvent :: "session \<Rightarrow> session" where
  "sendStateEvent s = s\<lparr>stateEvents := stateEvents s @ [getState s]\<rparr>"

definition publish :: "session \<Rightarrow> message \<Rightarrow> session" where
  "publish s m = s\<lparr>published := published s @ [m]\<rparr>"

definition sendLoadingEvent :: "session \<Rightarrow> session" where
  "sendLoadingEvent s =
     (if \<not> truthy (loadingMessage s) then s
      else if \<not> pubnub s then s
      else publish s (LOADING_MESSAGE (the (loadingMessage s))))"

definition getAnalyticsMetadata :: "env \<Rightarrow> session \<Rightarrow> string obj" where
  "getAnalyticsMetadata e s = assign [(''expoSdkVersion'', sdkVersion s)] (analytics e)"

subsection \<open>The constructor's fields and \<^verbatim>\<open>saveAsync\<close>\<close>

text \<open>
  The assignments of the constructor up to the channel check (lines 115-143).
  \<open>h\<close> is the heap in which the caller's file objects live.
\<close>

definition initialSession :: "env \<Rightarrow> options \<Rightarrow> (ref \<Rightarrow> snack_file) \<Rightarrow> session" where
  "initialSession e opts h =
     (let fs = opt_files opts;
          sdk = orElse (opt_sdkVersion opts) (defaultSDKVersion e);
          deps = (case opt_dependencies opts of Some d \<Rightarrow> d | None \<Rightarrow> [])
      in \<lparr>files = fs, heap = h, s3code = [], diff = [], s3url = [],
          snackId = opt_snackId opts, sdkVersion = sdk, isVerbose = opt_verbose opts,
          pubnub = False, channel = orElse (opt_sessionId opts) (shortid_generate e),
          host = orElse (opt_host opts) ''snack.expo.io'',
          name = opt_name opts, description = opt_description opts, dependencies = deps,
          initialState =
            cloneDeep
              \<lparr>init_files = map (\<lambda>(key, r). (key, h r)) fs, init_name = opt_name opts,
               init_description = opt_description opts, init_dependencies = deps,
               init_sdkVersion = sdk\<rparr>,
          isResolving = False, authorizationToken = opt_authorizationToken opts,
          loadingMessage = None, promises = [], published = [], stateEvents = [],
          publishScheduled = 0, dependencyErrors = []\<rparr>)"


subsection \<open>\<^verbatim>\<open>sendCodeAsync\<close>\<close>

text \<open>
  The first loop (lines 266-270) deletes the keys that the new map lacks. The second
  (lines 272-282) goes through the keys of the new map in order; \<^verbatim>\<open>!==\<close> compares
  the two file objects by identity, so by reference. An upload that rejects ends the
  call with the session as it stands.
\<close>

definition removeMissing :: "ref obj \<Rightarrow> session \<Rightarrow> session" where
  "removeMissing newFiles s =
     fold (\<lambda>key s'. if map_of newFiles key = None
                     then s'\<lparr>files := AList.delete key (files s')\<rparr> else s')
          (map fst (files s)) s"

fun addOrUpdate :: "env \<Rightarrow> ref obj \<Rightarrow> string list \<Rightarrow> session \<Rightarrow> session \<times> (js_error + unit)" where
  "addOrUpdate e newFiles [] s = (s, Inr ())"
| "addOrUpdate e newFiles (key # keys) s =
     (case map_of newFiles key of
        None \<Rightarrow> addOrUpdate e newFiles keys s
      | Some r \<Rightarrow>
          if map_of (files s) key = None \<or> map_of (files s) key \<noteq> Some r then
            let s1 = s\<lparr>files := AList.update key r (files s)\<rparr>;
                f = heap s1 r
            in if ftype f = ASSET \<and> isObject (contents f) then
                 (case uploadAssetToS3 e (contents f) of
                    Inl err \<Rightarrow> (s1, Inl err)
                  | Inr url \<Rightarrow>
                      addOrUpdate e newFiles keys
                        (s1\<lparr>heap := (heap s1)(r := f\<lparr>contents := Str url\<rparr>)\<rparr>))
               else addOrUpdate e newFiles keys s1
          else addOrUpdate e newFiles keys s)"

definition sendCodeAsync :: "env \<Rightarrow> session \<Rightarrow> ref obj \<Rightarrow> session \<times> (js_error + unit)" where
  "sendCodeAsync e s newFiles =
     (case addOrUpdate e newFiles (map fst newFiles) (removeMissing newFiles s) of
        (s1, Inl err) \<Rightarrow> (s1, Inl err)
      | (s1, Inr u) \<Rightarrow>
          (sendStateEvent (s1\<lparr>publishScheduled := publishScheduled s1 + 1\<rparr>), Inr ()))"

subsection \<open>The dependency engine\<close>

definition bundlePath :: "string \<Rightarrow> string option \<Rightarrow> string" where
  "bundlePath nm version =
     ''/bundle/'' @ nm @ (if truthy version then ''@'' @ the version else []) @
     ''?platforms=ios,android''"

definition checkS3ForDepencencyAsync :: "env \<Rightarrow> string \<Rightarrow> string \<Rightarrow> bool" where
  "checkS3ForDepencencyAsync e nm version =
     (let hash = map (\<lambda>c. if c = CHR ''/'' then CHR ''~'' else c) (nm @ ''@'' @ version)
      in list_all (\<lambda>platform. case cdn_status e hash platform of
                                 None \<Rightarrow> False
                               | Some st \<Rightarrow> st < 400)
           [''ios'', ''android''])"

text \<open>
  \<^verbatim>\<open>_maybeFetchDependencyAsync\<close> (lines 795-831) with its cache. A slot of the cache
  holds a promise first and the settled value afterwards; a requester gets the same
  value either way, so the cache is modelled by its settled values.
\<close>

definition maybeFetchDependencyAsync ::
  "env \<Rightarrow> session \<Rightarrow> string \<Rightarrow> string option \<Rightarrow> session \<times> dep_data" where
  "maybeFetchDependencyAsync e s nm version =
     (let id = nm @ ''-'' @ orElse version ''latest''
      in case map_of (promises s) id of
           Some d \<Rightarrow> (s, d)
         | None \<Rightarrow>
             (case snd (tryFetchDependencyAsync (bundler e (bundlePath nm version))) of
                Inr data \<Rightarrow> (s\<lparr>promises := AList.update id data (promises s)\<rparr>, data)
              | Inl err \<Rightarrow>
                  if checkS3ForDepencencyAsync e nm (orElse version ''latest'') then
                    let d = \<lparr>pending = False, dep_name = nm,
                             dep_version = orElse version (npmVersionPins_default e),
                             dep_dependencies = None, dep_error = Some (toString err)\<rparr>
                    in (s\<lparr>promises := AList.update id d (promises s)\<rparr>, d)
                  else
                    let d = \<lparr>pending = False, dep_name = nm,
                             dep_version = npmVersionPins_error e,
                             dep_dependencies = None, dep_error = None\<rparr>
                    in (s\<lparr>promises := AList.update id d (promises s),
                          dependencyErrors := dependencyErrors s @
                            [''Error fetching '' @ nm @ ''@'' @ orElse version ''latest'' @
                             '': '' @ toString err]\<rparr>, d)))"

fun fetchAll ::
  "env \<Rightarrow> session \<Rightarrow> (string \<times> string option) list \<Rightarrow> session \<times> dep_data list" where
  "fetchAll e s [] = (s, [])"
| "fetchAll e s ((nm, version) # rest) =
     (let (s1, d) = maybeFetchDependencyAsync e s nm version;
          (s2, ds) = fetchAll e s1 rest
      in (s2, d # ds))"

definition collectPeerDependencies :: "dep_data list \<Rightarrow> string obj" where
  "collectPeerDependencies results =
     foldl (\<lambda>peer it. case dep_dependencies it of
                        None \<Rightarrow> peer
                      | Some deps \<Rightarrow>
                          foldl (\<lambda>p (nm, version).
                                   if nm \<in> set reserved then p else AList.update nm version p)
                                peer deps)
           [] results"

definition pinSet :: "dep_data list \<Rightarrow> string obj" where
  "pinSet results = foldl (\<lambda>d it. AList.update (dep_name it) (dep_version it) d) [] results"

text \<open>
  \<^verbatim>\<open>_findDependenciesOnceAsync\<close> (lines 888-1006) in two parts: up to the first
  \<^verbatim>\<open>await\<close>, which runs when the function is called, and the rest, which runs when
  the fetches have settled. The first part yields the modules to install, or \<open>None\<close>
  when the function returns \<^verbatim>\<open>null\<close>. A blob is not source text: the scanner throws
  on it, like on text that does not parse.
\<close>

definition changedModules :: "session \<Rightarrow> string option obj \<Rightarrow> string list" where
  "changedModules s modules =
     filter (\<lambda>moduleName. map_of (dependencies s) moduleName = None \<or>
                          map_of modules moduleName \<noteq> Some (map_of (dependencies s) moduleName))
       (map fst modules)"

definition findDependenciesBegin ::
  "env \<Rightarrow> session \<Rightarrow> contents \<Rightarrow> session \<times> string option obj option" where
  "findDependenciesBegin e s file =
     (if \<not> supportsFeature e s ARBITRARY_IMPORTS then (s, None)
      else case (case file of Blob b \<Rightarrow> Inl (TypeError ''not a string'')
                            | Str code \<Rightarrow> findModuleDependencies e code) of
             Inl err \<Rightarrow> (s, None)
           | Inr found \<Rightarrow>
               let modules = filter (\<lambda>(module, version).
                                 \<not> prefix ''.'' module \<and> module \<notin> set reserved) found
               in if modules = [] \<or> changedModules s modules = [] then (s, None)
                  else
                    let s1 = sendStateEvent s;
                        s2 = s1\<lparr>loadingMessage := Some ''Installing dependencies''\<rparr>;
                        s3 = sendLoadingEvent s2
                    in (s3, Some modules))"

definition findDependenciesRest ::
  "env \<Rightarrow> session \<Rightarrow> string \<Rightarrow> string option obj \<Rightarrow> session \<times> string option" where
  "findDependenciesRest e s code modules =
     (let (s1, results) = fetchAll e s modules;
          peerDependencies = collectPeerDependencies results;
          s2 = sendStateEvent (s1\<lparr>dependencies := assign (dependencies s1) peerDependencies\<rparr>);
          (s3, peerResults) = fetchAll e s2 (map (\<lambda>(nm, version). (nm, Some version)) peerDependencies);
          pins = pinSet (peerResults @ results)
      in case (if peerResults \<noteq> [] then insertImports e code (map dep_name peerResults)
               else Inr code) of
           Inl err \<Rightarrow> (sendStateEvent s3, None)
         | Inr code1 \<Rightarrow>
             (case writeModuleVersions e code1 pins of
                Inl err \<Rightarrow> (sendStateEvent s3, None)
              | Inr code2 \<Rightarrow>
                  let s4 = sendStateEvent (s3\<lparr>dependencies := assign (dependencies s3) pins\<rparr>)
                  in (sendStateEvent s4, Some code2)))"

definition findDependenciesOnceAsync ::
  "env \<Rightarrow> session \<Rightarrow> contents \<Rightarrow> session \<times> string option" where
  "findDependenciesOnceAsync e s file =
     (case findDependenciesBegin e s file of
        (s1, None) \<Rightarrow> (s1, None)
      | (s1, Some modules) \<Rightarrow>
          (case file of Str code \<Rightarrow> findDependenciesRest e s1 code modules
                      | Blob b \<Rightarrow> (s1, None)))"

text \<open>
  \<^verbatim>\<open>_handleFindDependenciesAsync\<close> (lines 850-886). \<^verbatim>\<open>Promise.all\<close> over the keys
  starts every task at once: each runs to its first \<^verbatim>\<open>await\<close> in key order
  (\<open>beginTasks\<close>), and the tasks are resumed afterwards, here in key order. A
  task is the key, the contents it saw at its start, and the modules it is
  installing, if any.

  A resumed task finishes \<^verbatim>\<open>_findDependenciesOnceAsync\<close> and then reads
  \<^verbatim>\<open>files[key].contents\<close> (line 869), which throws when the key is no longer in the
  file map. The first task that throws rejects \<^verbatim>\<open>Promise.all\<close>: the \<^verbatim>\<open>catch\<close> and
  \<^verbatim>\<open>finally\<close> blocks run at once, and the tasks not yet resumed are left running.
  \<open>finishTasks\<close> returns what was thrown, if anything, and those tasks.
  Listeners and the transport client are taken not to throw.
\<close>

type_synonym task = "string \<times> contents \<times> string option obj option"

fun beginTasks :: "env \<Rightarrow> session \<Rightarrow> string list \<Rightarrow> session \<times> task list" where
  "beginTasks e s [] = (s, [])"
| "beginTasks e s (key # keys) =
     (if suffix ''.js'' key then
        (case map_of (files s) key of
           None \<Rightarrow> beginTasks e s keys
         | Some r \<Rightarrow>
             let codeAtStart = contents (heap s r);
                 (s1, modules) = findDependenciesBegin e s codeAtStart;
                 (s2, tasks) = beginTasks e s1 keys
             in (s2, (key, codeAtStart, modules) # tasks))
      else beginTasks e s keys)"

definition awaitOnce ::
  "env \<Rightarrow> session \<Rightarrow> contents \<Rightarrow> string option obj option \<Rightarrow> session \<times> string option" where
  \<comment> \<open>what \<^verbatim>\<open>await this._findDependenciesOnceAsync(...)\<close> yields when the task is resumed\<close>
  "awaitOnce e s codeAtStart modules =
     (case (modules, codeAtStart) of
        (Some ms, Str code) \<Rightarrow> findDependenciesRest e s code ms
      | _ \<Rightarrow> (s, None))"

definition finishTask :: "env \<Rightarrow> session \<Rightarrow> task \<Rightarrow> session \<times> (js_error + unit)" where
  "finishTask e s t =
     (case t of (key, codeAtStart, modules) \<Rightarrow>
        let (s1, codeWithVersions) = awaitOnce e s codeAtStart modules
        in case map_of (files s1) key of
             None \<Rightarrow> (s1, Inl (TypeError ''Cannot read property contents of undefined''))
           | Some r \<Rightarrow>
               if contents (heap s1 r) = codeAtStart \<and> truthy codeWithVersions then
                 (sendStateEvent
                    (s1\<lparr>heap := (heap s1)
                          (r := (heap s1 r)\<lparr>contents := Str (the codeWithVersions)\<rparr>)\<rparr>),
                  Inr ())
               else (s1, Inr ()))"

fun finishTasks ::
  "env \<Rightarrow> session \<Rightarrow> task list \<Rightarrow> session \<times> js_error option \<times> task list" where
  "finishTasks e s [] = (s, None, [])"
| "finishTasks e s (t # tasks) =
     (case finishTask e s t of
        (s1, Inl err) \<Rightarrow> (s1, Some err, tasks)
      | (s1, Inr u) \<Rightarrow> finishTasks e s1 tasks)"

definition handleFindDependenciesStart :: "env \<Rightarrow> session \<Rightarrow> session \<times> task list option" where
  "handleFindDependenciesStart e s =
     (if \<not> supportsFeature e s ARBITRARY_IMPORTS then (s, None)
      else if isResolving s then (s, None)
      else
        let (s1, tasks) = beginTasks e (s\<lparr>isResolving := True\<rparr>) (map fst (files s))
        in (s1, Some tasks))"

text \<open>The rest of the function once its tasks are resumed: the session after the
  \<^verbatim>\<open>finally\<close> block, and the tasks that are still running then.\<close>

definition handleFindDependenciesFinish ::
  "env \<Rightarrow> session \<Rightarrow> task list \<Rightarrow> session \<times> task list" where
  "handleFindDependenciesFinish e s tasks =
     (case finishTasks e s tasks of
        (s1, thrown, running) \<Rightarrow>
          (sendStateEvent (s1\<lparr>loadingMessage := None, isResolving := False\<rparr>), running))"

text \<open>The whole function when nothing else runs between its start and its end.\<close>

definition handleFindDependenciesAsync :: "env \<Rightarrow> session \<Rightarrow> session" where
  "handleFindDependenciesAsync e s =
     (case handleFindDependenciesStart e s of
        (s1, None) \<Rightarrow> s1
      | (s1, Some tasks) \<Rightarrow> fst (handleFindDependenciesFinish e s1 tasks))"

subsection \<open>The constructor\<close>

text \<open>
  The constructor (lines 112-207) throws on a short channel; otherwise it starts a
  dependency resolution without awaiting it, when the feature is on, and creates
  the transport client. The session it returns is the one the caller holds when
  \<^verbatim>\<open>new SnackSession\<close> returns: the resolution has run to its first \<^verbatim>\<open>await\<close>s and its
  tasks, returned with the session, are still to be resumed.
\<close>

definition constructor ::
  "env \<Rightarrow> options \<Rightarrow> (ref \<Rightarrow> snack_file) \<Rightarrow> js_error + session \<times> task list option" where
  "constructor e opts h =
     (let s = initialSession e opts h
      in if length (channel s) < MIN_CHANNEL_LENGTH
         then Inl (Error ''Please use a channel id with more entropy'')
         else
           let (s1, tasks) = (if supportsFeature e s ARBITRARY_IMPORTS
                              then handleFindDependenciesStart e s else (s, None))
           in Inr (s1\<lparr>pubnub := True\<rparr>, tasks))"

subsection \<open>The publication pipeline\<close>

definition payloadSize :: "env \<Rightarrow> session \<Rightarrow> nat" where
  \<comment> \<open>\<^verbatim>\<open>sendFileUtils.calcPayloadSize(this.channel, {diff: this.diff, s3url: this.s3url})\<close>\<close>
  "payloadSize e s = calcPayloadSize e (channel s) (diff s) (s3url s)"

text \<open>
  \<^verbatim>\<open>_uploadHelper\<close> (lines 551-579). \<^verbatim>\<open>Promise.all\<close> starts the task of every key in
  key order. The task of a blob sets \<^verbatim>\<open>s3code\<close> and \<^verbatim>\<open>diff\<close>, starts the upload and
  waits; the other tasks run to their end at once and push their size. The blob
  tasks are resumed afterwards, here in key order: each sets \<^verbatim>\<open>s3url\<close> and pushes
  its size. \<open>uploadHelperStart\<close> returns the sizes pushed and the uploads awaited.
\<close>

type_synonym file_size = "string \<times> nat"

definition diffLength :: "session \<Rightarrow> string \<Rightarrow> nat" where
  \<comment> \<open>\<^verbatim>\<open>this.diff[key].length\<close>, read where the entry has just been written\<close>
  "diffLength s key = (case map_of (diff s) key of Some d \<Rightarrow> length d | None \<Rightarrow> 0)"

fun uploadHelperStart ::
  "env \<Rightarrow> session \<Rightarrow> string list \<Rightarrow> session \<times> file_size list \<times> (string \<times> contents) list" where
  "uploadHelperStart e s [] = (s, [], [])"
| "uploadHelperStart e s (key # keys) =
     (case map_of (files s) key of
        None \<Rightarrow> uploadHelperStart e s keys
      | Some r \<Rightarrow>
          (case contents (heap s r) of
             Blob b \<Rightarrow>
               let s1 = s\<lparr>s3code := AList.update key (Blob b) (s3code s),
                          diff := AList.update key [] (diff s)\<rparr>;
                   (s2, sizes, waiting) = uploadHelperStart e s1 keys
               in (s2, sizes, (key, Blob b) # waiting)
           | Str code \<Rightarrow>
               let s1 =
                     (if prefix S3_BUCKET_URL code then
                        s\<lparr>diff := AList.update key [] (diff s),
                          s3code := AList.update key (Str code) (s3code s),
                          s3url := AList.update key code (s3url s)\<rparr>
                      else if truthy (map_of (s3url s) key) then
                        s\<lparr>diff := AList.update key
                                    (getFileDiff e (map_of (s3code s) key) code) (diff s)\<rparr>
                      else
                        s\<lparr>diff := AList.update key
                                    (getFileDiff e (Some (Str [])) code) (diff s)\<rparr>);
                   pushed = (key, diffLength s1 key);
                   (s2, sizes, waiting) = uploadHelperStart e s1 keys
               in (s2, pushed # sizes, waiting)))"

fun uploadHelperFinish ::
  "env \<Rightarrow> session \<Rightarrow> (string \<times> contents) list \<Rightarrow> session \<times> (js_error + file_size list)" where
  "uploadHelperFinish e s [] = (s, Inr [])"
| "uploadHelperFinish e s ((key, c) # waiting) =
     (case uploadAssetToS3 e c of
        Inl err \<Rightarrow> (s, Inl err)
      | Inr url \<Rightarrow>
          let s1 = s\<lparr>s3url := AList.update key url (s3url s)\<rparr>;
              pushed = (key, diffLength s1 key)
          in (case uploadHelperFinish e s1 waiting of
                (s2, Inl err) \<Rightarrow> (s2, Inl err)
              | (s2, Inr sizes) \<Rightarrow> (s2, Inr (pushed # sizes))))"

definition uploadHelper :: "env \<Rightarrow> session \<Rightarrow> session \<times> (js_error + file_size list)" where
  "uploadHelper e s =
     (let (s1, sizes, waiting) = uploadHelperStart e s (map fst (files s))
      in case uploadHelperFinish e s1 waiting of
           (s2, Inl err) \<Rightarrow> (s2, Inl err)
         | (s2, Inr late) \<Rightarrow> (s2, Inr (sizes @ late)))"

text \<open>
  The \<^verbatim>\<open>while\<close> loop of \<^verbatim>\<open>_handleUploadCodeAsync\<close> (lines 534-546). The list holds
  the entries of \<^verbatim>\<open>fileSize\<close> in the order in which \<^verbatim>\<open>pop\<close> takes them: the sorted
  array read from its end.
\<close>

fun spillLoop ::
  "env \<Rightarrow> session \<Rightarrow> nat \<Rightarrow> file_size list \<Rightarrow> session \<times> (js_error + unit)" where
  "spillLoop e s sz [] = (s, Inr ())"
| "spillLoop e s sz (entry # fileSize) =
     (if sz > MAX_PUBNUB_SIZE then
        let key = fst entry
        in case map_of (files s) key of
             None \<Rightarrow> (s, Inl (TypeError ''Cannot read property contents of undefined''))
           | Some r \<Rightarrow>
               let c = contents (heap s r);
                   s1 = s\<lparr>s3code := AList.update key c (s3code s),
                          diff := AList.update key [] (diff s)\<rparr>
               in (case uploadCodeToS3 e c of
                     Inl err \<Rightarrow> (s1, Inl err)
                   | Inr url \<Rightarrow>
                       let s2 = s1\<lparr>s3url := AList.update key url (s3url s1)\<rparr>
                       in spillLoop e s2 (payloadSize e s2) fileSize)
      else (s, Inr ()))"

definition popOrder :: "file_size list \<Rightarrow> file_size list" where
  \<comment> \<open>\<^verbatim>\<open>fileSize.sort((a, b) => a.size - b.size)\<close>, then \<^verbatim>\<open>pop\<close> after \<^verbatim>\<open>pop\<close>\<close>
  "popOrder fileSize = rev (sort_key snd fileSize)"

definition handleUploadCodeAsync :: "env \<Rightarrow> session \<Rightarrow> session \<times> (js_error + unit)" where
  "handleUploadCodeAsync e s =
     (case uploadHelper e s of
        (s1, Inl err) \<Rightarrow> (s1, Inl err)
      | (s1, Inr fileSize) \<Rightarrow>
          let sz = payloadSize e s1
          in if sz > MAX_PUBNUB_SIZE then spillLoop e s1 sz (popOrder fileSize)
             else (s1, Inr ()))"

text \<open>\<^verbatim>\<open>_publishNotDebouncedAsync\<close> (lines 634-673).\<close>

definition publishNotDebouncedAsync :: "env \<Rightarrow> session \<Rightarrow> session \<times> (js_error + unit)" where
  "publishNotDebouncedAsync e s =
     (if truthy (loadingMessage s) then (sendLoadingEvent s, Inr ())
      else
        let s1 = (if supportsFeature e s ARBITRARY_IMPORTS
                  then handleFindDependenciesAsync e s else s)
        in if isResolving s1 then (s1, Inr ())
           else
             let metadata = getAnalyticsMetadata e s1
             in if supportsFeature e s1 MULTIPLE_FILES then
                  (case handleUploadCodeAsync e s1 of
                     (s2, Inl err) \<Rightarrow> (s2, Inl err)
                   | (s2, Inr u) \<Rightarrow>
                       (publish s2 (CODE_diff (diff s2) (s3url s2) metadata), Inr ()))
                else
                  (case map_of (files s1) ''app.js'' of
                     None \<Rightarrow>
                       (s1, Inl (TypeError ''Cannot read property contents of undefined''))
                   | Some r \<Rightarrow>
                       (publish s1 (CODE_legacy (contents (heap s1 r)) metadata), Inr ())))"

text \<open>
  The same function cut at its \<^verbatim>\<open>await\<close>s, for what happens when something else runs
  in between. \<open>publishNotDebouncedStart\<close> is lines 635-639: the test of
  \<^verbatim>\<open>loadingMessage\<close> and the call of the engine, which runs to its first \<^verbatim>\<open>await\<close>.
  \<open>publishNotDebouncedCheck\<close> is lines 642-650, run when the engine has returned:
  the test of \<^verbatim>\<open>isResolving\<close>, the metadata, and \<^verbatim>\<open>_handleUploadCodeAsync\<close> up to the
  \<^verbatim>\<open>await\<close> of its uploads (or the legacy payload, which is sent at once).
  \<open>publishNotDebouncedSend\<close> is the rest, run when the uploads have settled: the
  end of \<^verbatim>\<open>_handleUploadCodeAsync\<close> and the \<^verbatim>\<open>publish\<close> of lines 651-665. A step
  says where the call is waiting, and holds the local variables it will resume with.
\<close>

datatype upload_step =
    Done "js_error + unit"
  | AwaitingUpload "string obj" "file_size list" "(string \<times> contents) list"

datatype publish_step =
    Ran upload_step
  | AwaitingEngine "task list option"

definition handleUploadCodeFinish ::
  "env \<Rightarrow> session \<Rightarrow> file_size list \<Rightarrow> (string \<times> contents) list \<Rightarrow> session \<times> (js_error + unit)" where
  "handleUploadCodeFinish e s sizes waiting =
     (case uploadHelperFinish e s waiting of
        (s1, Inl err) \<Rightarrow> (s1, Inl err)
      | (s1, Inr late) \<Rightarrow>
          let sz = payloadSize e s1
          in if sz > MAX_PUBNUB_SIZE then spillLoop e s1 sz (popOrder (sizes @ late))
             else (s1, Inr ()))"

definition publishNotDebouncedCheck :: "env \<Rightarrow> session \<Rightarrow> session \<times> upload_step" where
  "publishNotDebouncedCheck e s =
     (if isResolving s then (s, Done (Inr ()))
      else
        let metadata = getAnalyticsMetadata e s
        in if supportsFeature e s MULTIPLE_FILES then
             (case uploadHelperStart e s (map fst (files s)) of
                (s1, sizes, waiting) \<Rightarrow> (s1, AwaitingUpload metadata sizes waiting))
           else
             (case map_of (files s) ''app.js'' of
                None \<Rightarrow>
                  (s, Done (Inl (TypeError ''Cannot read property contents of undefined'')))
              | Some r \<Rightarrow>
                  (publish s (CODE_legacy (contents (heap s r)) metadata), Done (Inr ()))))"

definition publishNotDebouncedSend ::
  "env \<Rightarrow> session \<Rightarrow> string obj \<Rightarrow> file_size list \<Rightarrow> (string \<times> contents) list \<Rightarrow>
   session \<times> (js_error + unit)" where
  "publishNotDebouncedSend e s metadata sizes waiting =
     (case handleUploadCodeFinish e s sizes waiting of
        (s1, Inl err) \<Rightarrow> (s1, Inl err)
      | (s1, Inr u) \<Rightarrow> (publish s1 (CODE_diff (diff s1) (s3url s1) metadata), Inr ()))"

definition publishNotDebouncedStart :: "env \<Rightarrow> session \<Rightarrow> session \<times> publish_step" where
  "publishNotDebouncedStart e s =
     (if truthy (loadingMessage s) then (sendLoadingEvent s, Ran (Done (Inr ())))
      else if supportsFeature e s ARBITRARY_IMPORTS then
        (case handleFindDependenciesStart e s of (s1, tasks) \<Rightarrow> (s1, AwaitingEngine tasks))
      else (case publishNotDebouncedCheck e s of (s1, u) \<Rightarrow> (s1, Ran u)))"

text \<open>A call that nothing interleaves with: every step is resumed at once.\<close>

fun resumeUpload :: "env \<Rightarrow> session \<Rightarrow> upload_step \<Rightarrow> session \<times> (js_error + unit)" where
  "resumeUpload e s (Done r) = (s, r)"
| "resumeUpload e s (AwaitingUpload metadata sizes waiting) =
     publishNotDebouncedSend e s metadata sizes waiting"

fun resumeEngine :: "env \<Rightarrow> session \<Rightarrow> publish_step \<Rightarrow> session \<times> (js_error + unit)" where
  "resumeEngine e s (Ran u) = resumeUpload e s u"
| "resumeEngine e s (AwaitingEngine tasks) =
     (let s1 = (case tasks of None \<Rightarrow> s
                            | Some ts \<Rightarrow> fst (handleFindDependenciesFinish e s ts))
      in case publishNotDebouncedCheck e s1 of (s2, u) \<Rightarrow> resumeUpload e s2 u)"

section \<open>Predicates used in the statements\<close>

text \<open>
  \<open>engineStep s s'\<close> holds of the session before and after a step of the dependency
  engine other than its first and last: the step leaves the files map, the ledger,
  the metadata and \<^verbatim>\<open>isResolving\<close> alone, sets \<^verbatim>\<open>loadingMessage\<close> to nothing but
  \<^verbatim>\<open>Installing dependencies\<close>, publishes nothing but loading messages, and every state
  event it sends carries the \<^verbatim>\<open>isResolving\<close> of the session.
\<close>

definition isLoadingMessage :: "message \<Rightarrow> bool" where
  "isLoadingMessage m = (case m of LOADING_MESSAGE t \<Rightarrow> True | _ \<Rightarrow> False)"

definition engineStep :: "session \<Rightarrow> session \<Rightarrow> bool" where
  "engineStep s s' =
     (files s' = files s \<and> sdkVersion s' = sdkVersion s \<and> channel s' = channel s \<and>
      pubnub s' = pubnub s \<and> diff s' = diff s \<and> s3url s' = s3url s \<and>
      s3code s' = s3code s \<and> name s' = name s \<and> description s' = description s \<and>
      initialState s' = initialState s \<and> publishScheduled s' = publishScheduled s \<and>
      isResolving s' = isResolving s \<and>
      (loadingMessage s' = loadingMessage s \<or>
       loadingMessage s' = Some ''Installing dependencies'') \<and>
      (\<exists>msgs. published s' = published s @ msgs \<and> list_all isLoadingMessage msgs) \<and>
      (\<exists>evs. stateEvents s' = stateEvents s @ evs \<and>
             list_all (\<lambda>ev. st_isResolving ev = isResolving s) evs))"


text \<open>
  \<open>loadingOk\<close>: \<^verbatim>\<open>loadingMessage\<close> is null (or not yet assigned) or the one message
  that the session ever assigns to it. \<open>newMessages s s'\<close> are the messages
  published between two sessions of which the second continues the first.
  \<open>ledgerOnly s s'\<close>: only the ledger \<^verbatim>\<open>{s3code, diff, s3url}\<close> differs.
\<close>

definition loadingOk :: "session \<Rightarrow> bool" where
  "loadingOk s =
     (loadingMessage s = None \<or> loadingMessage s = Some ''Installing dependencies'')"

definition newMessages :: "session \<Rightarrow> session \<Rightarrow> message list" where
  "newMessages s s' = drop (length (published s)) (published s')"

definition ledgerOnly :: "session \<Rightarrow> session \<Rightarrow> bool" where
  "ledgerOnly s s' = (\<exists>c d u. s' = s\<lparr>s3code := c, diff := d, s3url := u\<rparr>)"

text \<open>\<open>isBlobAsset s r\<close>: the file object at \<open>r\<close> is an asset whose contents are a
  blob, the condition of line 275 for uploading it.\<close>

definition isBlobAsset :: "session \<Rightarrow> ref \<Rightarrow> bool" where
  "isBlobAsset s r = (ftype (heap s r) = ASSET \<and> isObject (contents (heap s r)))"

text \<open>
  \<open>uploadsSucceed\<close>: the object store accepts every upload. \<open>isSpilled e s key\<close>:
  the ledger of \<open>s\<close> holds the file under \<open>key\<close> as the spill leaves it, that
  is \<^verbatim>\<open>s3code[key]\<close> is its contents, \<^verbatim>\<open>diff[key]\<close> is the empty string and
  \<^verbatim>\<open>s3url[key]\<close> is the URL that \<^verbatim>\<open>uploadCodeToS3\<close> returns for the contents.
\<close>

definition uploadsSucceed :: "env \<Rightarrow> bool" where
  "uploadsSucceed e =
     ((\<forall>c. \<exists>url. uploadAssetToS3 e c = Inr url) \<and> (\<forall>c. \<exists>url. uploadCodeToS3 e c = Inr url))"

definition isSpilled :: "env \<Rightarrow> session \<Rightarrow> string \<Rightarrow> bool" where
  "isSpilled e s key =
     (case map_of (files s) key of
        None \<Rightarrow> False
      | Some r \<Rightarrow>
          map_of (s3code s) key = Some (contents (heap s r)) \<and>
          map_of (diff s) key = Some [] \<and>
          (case uploadCodeToS3 e (contents (heap s r)) of
             Inl err \<Rightarrow> False
           | Inr url \<Rightarrow> map_of (s3url s) key = Some url))"

section \<open>An environment and a session to run the operations on\<close>

text \<open>
  \<open>modelPayloadSize\<close> counts the characters of the channel and of every key and
  value of the two maps, plus a constant for the envelope.

  Modelled from the spec: \<^verbatim>\<open>sendFileUtils.calcPayloadSize\<close> is not among the sources;
  the spec says that it "estimates the number of bytes the transport will charge for
  publishing \<^verbatim>\<open>{channel, payload}\<close>, including envelope overhead".
\<close>

definition objectSize :: "string obj \<Rightarrow> nat" where
  "objectSize ob = sum_list (map (\<lambda>(k, v). length k + length v) ob)"

definition modelPayloadSize :: "string \<Rightarrow> string obj \<Rightarrow> string obj \<Rightarrow> nat" where
  "modelPayloadSize chan d u = length chan + objectSize d + objectSize u + 100"

definition lodashSource :: string where
  "lodashSource = ''import _ from lodash;''"

definition demoEnv :: env where
  "demoEnv =
     \<lparr>sdkSupportsFeature = (\<lambda>version feature. version = ''21.0.0''),
      defaultSDKVersion = ''21.0.0'',
      npmVersionPins_default = ''LATEST'',
      npmVersionPins_error = ''ERROR'',
      shortid_generate = ''rJ8kPz3xW'',
      uploadAssetToS3 = (\<lambda>c. Inr ''https://snack-code-uploads/asset''),
      uploadCodeToS3 = (\<lambda>c. Inr ''https://snack-code-uploads/code''),
      getFileDiff = (\<lambda>old new. new),
      calcPayloadSize = modelPayloadSize,
      findModuleDependencies =
        (\<lambda>code. if code = lodashSource then Inr [(''lodash'', None)] else Inr []),
      writeModuleVersions = (\<lambda>code pins. Inr (code @ '' // 4.17.4'')),
      insertImports = (\<lambda>code names. Inr code),
      analytics = [],
      bundler = (\<lambda>path n. terminalResponse lodashData),
      cdn_status = (\<lambda>hash platform. Some 200),
      save_endpoint = (\<lambda>request. Inr \<lparr>save_id = Some ''SkQzy7'', save_error = None\<rparr>)\<rparr>"

definition demoHeap :: "ref \<Rightarrow> snack_file" where
  "demoHeap r =
     (if r = 1 then \<lparr>ftype = ASSET, contents = Blob 7\<rparr>
      else if r = 2 \<or> r = 3 then \<lparr>ftype = CODE, contents = Str lodashSource\<rparr>
      else \<lparr>ftype = CODE, contents = Str ''console.log(1)''\<rparr>)"

definition demoOptions :: options where
  "demoOptions =
     \<lparr>opt_files = [(''app.js'', 0)], opt_sdkVersion = None, opt_verbose = False,
      opt_sessionId = None, opt_host = None, opt_authorizationToken = None,
      opt_snackId = None, opt_name = Some ''demo'', opt_description = None,
      opt_dependencies = None\<rparr>"

definition demoSession :: session where
  "demoSession = (initialSession demoEnv demoOptions demoHeap)\<lparr>pubnub := True\<rparr>"

text \<open>A session whose only file imports lodash, a scanner that fails to parse, and
  a network on which every request to the bundler and to the CDN fails.\<close>

definition lodashSession :: session where
  "lodashSession = demoSession\<lparr>files := [(''app.js'', 2)]\<rparr>"

definition parseFailEnv :: env where
  "parseFailEnv =
     demoEnv\<lparr>findModuleDependencies := (\<lambda>code. Inl (SyntaxError ''Unexpected token''))\<rparr>"

definition fetchFailEnv :: env where
  "fetchFailEnv =
     demoEnv\<lparr>bundler := (\<lambda>path n. \<lparr>status = 500, body_text = ''Internal error'',
                                       body_json = None\<rparr>),
             cdn_status := (\<lambda>hash platform. None)\<rparr>"

text \<open>The same session on an SDK version that has neither feature.\<close>

definition legacySession :: session where
  "legacySession = demoSession\<lparr>sdkVersion := ''14.0.0''\<rparr>"

text \<open>Options with one image whose contents are still a blob.\<close>

definition imageOptions :: options where
  "imageOptions = demoOptions\<lparr>opt_files := [(''image.png'', 1)]\<rparr>"





text \<open>
  A publish overtaken by an edit and a second publish. The session has a source file
  and an image that is still a blob. The first call of \<^verbatim>\<open>_publishNotDebouncedAsync\<close>
  runs its engine, passes both tests and waits for the upload of the image.
  Meanwhile \<^verbatim>\<open>sendCodeAsync\<close> replaces \<^verbatim>\<open>app.js\<close> by a file that imports lodash, and a
  second call (a device joins) starts the engine, which waits for the bundler. Then
  the upload settles and the first call is resumed.
\<close>

definition imageSession :: session where
  "imageSession = demoSession\<lparr>files := [(''app.js'', 0), (''image.png'', 1)]\<rparr>"

definition publishOvertaken :: "session \<times> (js_error + unit)" where
  "publishOvertaken =
     (case publishNotDebouncedStart demoEnv imageSession of
        (s1, AwaitingEngine (Some tasks)) \<Rightarrow>
          (case publishNotDebouncedCheck demoEnv
                  (fst (handleFindDependenciesFinish demoEnv s1 tasks)) of
             (s2, AwaitingUpload metadata sizes waiting) \<Rightarrow>
               (case sendCodeAsync demoEnv s2 [(''app.js'', 2), (''image.png'', 1)] of
                  (s3, edited) \<Rightarrow>
                    (case publishNotDebouncedStart demoEnv s3 of
                       (s4, second) \<Rightarrow>
                         publishNotDebouncedSend demoEnv s4 metadata sizes waiting))
           | (s2, Done r) \<Rightarrow> (s2, r))
      | (s1, step) \<Rightarrow> resumeEngine demoEnv s1 step)"

text \<open>The session in which a resolution has started and waits for the bundler.\<close>

definition resolvingSession :: session where
  "resolvingSession = fst (handleFindDependenciesStart demoEnv lodashSession)"
section \<open>Properties of the bundler polling loop\<close>

lemma tryFetchLoop_polls_le: "fst (tryFetchLoop fetch count data) \<le> max count 31"
proof (induction fetch count data rule: tryFetchLoop.induct)
  case (1 fetch count data)
  show ?case
    using 1 by (subst tryFetchLoop.simps) (auto simp: Let_def split: option.splits if_splits)
qed

lemma tryFetchDependencyAsync_polls_le: "fst (tryFetchDependencyAsync fetch) \<le> 31"
  using tryFetchLoop_polls_le [of fetch 0 None] by (simp add: tryFetchDependencyAsync_def)

text \<open>
  C2. The claim caps the loop at 30 poll attempts. The guard \<^verbatim>\<open>count > 30\<close> is tested
  before \<^verbatim>\<open>count++\<close>, so the loop sends a 31st request: a bundler that answers
  \<^verbatim>\<open>{pending: true}\<close> thirty times and is ready on the next poll gets polled 31 times
  and its 31st answer is returned, and a bundler that is always pending is polled
  31 times before \<^verbatim>\<open>Request timed out\<close> is thrown.
\<close>

theorem tryFetchDependencyAsync_sends_31_requests:
  "tryFetchDependencyAsync readyAtPoll31 = (31, Inr lodashData) \<and>
   tryFetchDependencyAsync alwaysPending = (31, Inl (Error ''Request timed out''))"
  by code_simp


section \<open>Properties of event dispatch\<close>










section \<open>Properties of \<^verbatim>\<open>isSaved\<close>\<close>











section \<open>What the dependency engine leaves alone\<close>

lemma engineStep_refl [simp]: "engineStep s s"
  by (simp add: engineStep_def)

lemma engineStep_trans: "engineStep s s1 \<Longrightarrow> engineStep s1 s2 \<Longrightarrow> engineStep s s2"
proof -
  assume a: "engineStep s s1" and b: "engineStep s1 s2"
  obtain m1 where m1: "published s1 = published s @ m1" "list_all isLoadingMessage m1"
    using a unfolding engineStep_def by blast
  obtain m2 where m2: "published s2 = published s1 @ m2" "list_all isLoadingMessage m2"
    using b unfolding engineStep_def by blast
  obtain e1 where e1: "stateEvents s1 = stateEvents s @ e1"
      "list_all (\<lambda>ev. st_isResolving ev = isResolving s) e1"
    using a unfolding engineStep_def by blast
  obtain e2 where e2: "stateEvents s2 = stateEvents s1 @ e2"
      "list_all (\<lambda>ev. st_isResolving ev = isResolving s1) e2"
    using b unfolding engineStep_def by blast
  have r: "isResolving s1 = isResolving s" using a unfolding engineStep_def by blast
  have p: "published s2 = published s @ (m1 @ m2) \<and> list_all isLoadingMessage (m1 @ m2)"
    using m1 m2 by simp
  have q: "stateEvents s2 = stateEvents s @ (e1 @ e2) \<and>
           list_all (\<lambda>ev. st_isResolving ev = isResolving s) (e1 @ e2)"
    using e1 e2 r by simp
  have rest: "files s2 = files s \<and> sdkVersion s2 = sdkVersion s \<and> channel s2 = channel s \<and>
      pubnub s2 = pubnub s \<and> diff s2 = diff s \<and> s3url s2 = s3url s \<and>
      s3code s2 = s3code s \<and> name s2 = name s \<and> description s2 = description s \<and>
      initialState s2 = initialState s \<and> publishScheduled s2 = publishScheduled s \<and>
      isResolving s2 = isResolving s \<and>
      (loadingMessage s2 = loadingMessage s \<or>
       loadingMessage s2 = Some ''Installing dependencies'')"
    using a b unfolding engineStep_def by auto
  show ?thesis
    unfolding engineStep_def using rest p q by blast
qed

lemma engineStep_sendStateEvent: "engineStep s (sendStateEvent s)"
  by (simp add: engineStep_def sendStateEvent_def getState_def)

lemma engineStep_sendLoadingEvent: "engineStep s (sendLoadingEvent s)"
  by (simp add: engineStep_def sendLoadingEvent_def publish_def isLoadingMessage_def)

lemma engineStep_maybeFetch: "engineStep s (fst (maybeFetchDependencyAsync e s nm v))"
  by (simp add: engineStep_def maybeFetchDependencyAsync_def Let_def
      split: option.splits sum.splits)

lemma engineStep_fetchAll: "engineStep s (fst (fetchAll e s ms))"
proof (induction ms arbitrary: s)
  case Nil
  then show ?case by simp
next
  case (Cons m ms)
  obtain nm v where m: "m = (nm, v)" by (cases m)
  obtain s1 d where f: "maybeFetchDependencyAsync e s nm v = (s1, d)"
    by (cases "maybeFetchDependencyAsync e s nm v")
  have 1: "engineStep s s1" using engineStep_maybeFetch [of s e nm v] f by simp
  have 2: "engineStep s1 (fst (fetchAll e s1 ms))" by (rule Cons.IH)
  show ?case using engineStep_trans [OF 1 2] m f by (auto split: prod.splits)
qed

lemma engineStep_set_dependencies: "engineStep s (s\<lparr>dependencies := d\<rparr>)"
  by (simp add: engineStep_def)

lemma engineStep_set_loading:
  "engineStep s (s\<lparr>loadingMessage := Some ''Installing dependencies''\<rparr>)"
  by (simp add: engineStep_def)

lemma engineStep_set_heap: "engineStep s (s\<lparr>heap := h\<rparr>)"
  by (simp add: engineStep_def)

lemma engineStep_Begin: "engineStep s (fst (findDependenciesBegin e s file))"
proof -
  let ?s1 = "sendStateEvent s"
  let ?s2 = "?s1\<lparr>loadingMessage := Some ''Installing dependencies''\<rparr>"
  have "engineStep s (sendLoadingEvent ?s2)"
    by (rule engineStep_trans [OF engineStep_trans [OF engineStep_sendStateEvent
            engineStep_set_loading] engineStep_sendLoadingEvent])
  then show ?thesis
    by (simp add: findDependenciesBegin_def Let_def split: sum.splits)
qed

lemma engineStep_Rest: "engineStep s (fst (findDependenciesRest e s code modules))"
proof -
  obtain s1 results where f1: "fetchAll e s modules = (s1, results)"
    by (cases "fetchAll e s modules")
  define s2 where "s2 = sendStateEvent (s1\<lparr>dependencies := assign (dependencies s1) (collectPeerDependencies results)\<rparr>)"
  obtain s3 peerResults where f2:
    "fetchAll e s2 (map (\<lambda>(nm, version). (nm, Some version)) (collectPeerDependencies results)) = (s3, peerResults)"
    by (cases "fetchAll e s2 (map (\<lambda>(nm, version). (nm, Some version)) (collectPeerDependencies results))")
  have a: "engineStep s s1" using engineStep_fetchAll [of s e modules] f1 by simp
  have b: "engineStep s1 s2" unfolding s2_def
    by (rule engineStep_trans [OF engineStep_set_dependencies engineStep_sendStateEvent])
  have c: "engineStep s2 s3"
    using engineStep_fetchAll [of s2 e] f2 by (metis fst_conv)
  have s3: "engineStep s s3" by (rule engineStep_trans [OF engineStep_trans [OF a b] c])
  have d: "engineStep s (sendStateEvent s3)"
    by (rule engineStep_trans [OF s3 engineStep_sendStateEvent])
  have e: "engineStep s (sendStateEvent (sendStateEvent (s3\<lparr>dependencies := dd\<rparr>)))" for dd
    by (rule engineStep_trans [OF engineStep_trans [OF engineStep_trans
            [OF s3 engineStep_set_dependencies] engineStep_sendStateEvent]
          engineStep_sendStateEvent])
  have "fst (findDependenciesRest e s code modules) = sendStateEvent s3 \<or>
        (\<exists>dd. fst (findDependenciesRest e s code modules)
               = sendStateEvent (sendStateEvent (s3\<lparr>dependencies := dd\<rparr>)))"
    unfolding findDependenciesRest_def Let_def f1 prod.case s2_def [symmetric] f2
    by (auto split: sum.splits)
  then show ?thesis using d e by auto
qed

lemma engineStep_beginTasks: "engineStep s (fst (beginTasks e s keys))"
proof (induction keys arbitrary: s)
  case Nil
  then show ?case by simp
next
  case (Cons key keys)
  show ?case
  proof (cases "suffix ''.js'' key \<and> map_of (files s) key \<noteq> None")
    case False
    then show ?thesis using Cons [of s] by (auto split: option.splits)
  next
    case True
    then obtain r where r: "map_of (files s) key = Some r" by auto
    obtain s1 m where b: "findDependenciesBegin e s (contents (heap s r)) = (s1, m)"
      by (cases "findDependenciesBegin e s (contents (heap s r))")
    obtain s2 ts where t: "beginTasks e s1 keys = (s2, ts)" by (cases "beginTasks e s1 keys")
    have 1: "engineStep s s1" using engineStep_Begin [of s e "contents (heap s r)"] b by simp
    have 2: "engineStep s1 s2" using Cons [of s1] t by simp
    have "fst (beginTasks e s (key # keys)) = s2" using True r b t by simp
    then show ?thesis using engineStep_trans [OF 1 2] by simp
  qed
qed

lemma engineStep_awaitOnce: "engineStep s (fst (awaitOnce e s codeAtStart modules))"
proof (cases "\<exists>ms code. modules = Some ms \<and> codeAtStart = Str code")
  case True
  then obtain ms code where "modules = Some ms" "codeAtStart = Str code" by blast
  then show ?thesis using engineStep_Rest [of s e code ms] by (simp add: awaitOnce_def)
next
  case False
  then have "awaitOnce e s codeAtStart modules = (s, None)"
    by (auto simp: awaitOnce_def split: option.splits contents.splits)
  then show ?thesis by simp
qed

lemma engineStep_finishTask: "engineStep s (fst (finishTask e s t))"
proof -
  obtain key codeAtStart modules where t: "t = (key, codeAtStart, modules)" by (cases t)
  obtain s1 cv where r: "awaitOnce e s codeAtStart modules = (s1, cv)"
    by (cases "awaitOnce e s codeAtStart modules")
  have 1: "engineStep s s1" using engineStep_awaitOnce [of s e codeAtStart modules] r by simp
  have 2: "engineStep s (sendStateEvent (s1\<lparr>heap := h\<rparr>))" for h
    by (rule engineStep_trans [OF engineStep_trans [OF 1 engineStep_set_heap]
          engineStep_sendStateEvent])
  have "fst (finishTask e s t) = s1 \<or>
        (\<exists>h. fst (finishTask e s t) = sendStateEvent (s1\<lparr>heap := h\<rparr>))"
    by (auto simp: finishTask_def t r split: option.splits)
  then show ?thesis using 1 2 by auto
qed

lemma engineStep_finishTasks: "engineStep s (fst (finishTasks e s tasks))"
proof (induction tasks arbitrary: s)
  case Nil
  then show ?case by simp
next
  case (Cons t tasks)
  obtain s1 r where f: "finishTask e s t = (s1, r)" by (cases "finishTask e s t")
  have 1: "engineStep s s1" using engineStep_finishTask [of s e t] f by simp
  show ?case
  proof (cases r)
    case (Inl err)
    then show ?thesis using f 1 by simp
  next
    case (Inr u)
    then show ?thesis using f engineStep_trans [OF 1 Cons [of s1]] by simp
  qed
qed



lemma beginTasks_keys:
  "\<forall>t \<in> set (snd (beginTasks e s keys)). map_of (files s) (fst t) \<noteq> None"
proof (induction keys arbitrary: s)
  case Nil
  then show ?case by simp
next
  case (Cons key keys)
  show ?case
  proof (cases "suffix ''.js'' key \<and> map_of (files s) key \<noteq> None")
    case False
    then show ?thesis using Cons [of s] by (auto split: option.splits)
  next
    case True
    then obtain r where r: "map_of (files s) key = Some r" by auto
    obtain s1 m where b: "findDependenciesBegin e s (contents (heap s r)) = (s1, m)"
      by (cases "findDependenciesBegin e s (contents (heap s r))")
    obtain s2 ts where t: "beginTasks e s1 keys = (s2, ts)" by (cases "beginTasks e s1 keys")
    have f: "files s1 = files s"
      using engineStep_Begin [of s e "contents (heap s r)"] b by (simp add: engineStep_def)
    have "snd (beginTasks e s (key # keys)) = (key, contents (heap s r), m) # ts"
      using True r b t by simp
    then show ?thesis using Cons [of s1] t f r by simp
  qed
qed

section \<open>The re-entrance guard of the dependency engine\<close>

lemma handleFindDependenciesAsync_noop:
  "\<not> supportsFeature e s ARBITRARY_IMPORTS \<or> isResolving s \<Longrightarrow>
   handleFindDependenciesAsync e s = s"
  by (auto simp: handleFindDependenciesAsync_def handleFindDependenciesStart_def)

lemma handleFindDependenciesStart_runs:
  assumes "supportsFeature e s ARBITRARY_IMPORTS" "\<not> isResolving s"
  shows "\<exists>s1 tasks. handleFindDependenciesStart e s = (s1, Some tasks) \<and>
           engineStep (s\<lparr>isResolving := True\<rparr>) s1 \<and>
           (\<forall>t \<in> set tasks. map_of (files s1) (fst t) \<noteq> None)"
proof -
  let ?s0 = "s\<lparr>isResolving := True\<rparr>"
  obtain s1 tasks where b: "beginTasks e ?s0 (map fst (files s)) = (s1, tasks)"
    by (cases "beginTasks e ?s0 (map fst (files s))")
  have 1: "engineStep ?s0 s1"
    using engineStep_beginTasks [of ?s0 e "map fst (files s)"] b by simp
  then have f: "files s1 = files ?s0" by (simp add: engineStep_def)
  have 2: "\<forall>t \<in> set tasks. map_of (files s1) (fst t) \<noteq> None"
    using beginTasks_keys [of e ?s0 "map fst (files s)"] b f by simp
  have "handleFindDependenciesStart e s = (s1, Some tasks)"
    using assms b by (simp add: handleFindDependenciesStart_def)
  then show ?thesis using 1 2 by blast
qed

lemma handleFindDependenciesFinish_releases:
  "\<exists>s2. engineStep s1 s2 \<and>
        fst (handleFindDependenciesFinish e s1 tasks)
          = sendStateEvent (s2\<lparr>loadingMessage := None, isResolving := False\<rparr>)"
proof -
  obtain s2 thrown running where f: "finishTasks e s1 tasks = (s2, thrown, running)"
    by (cases "finishTasks e s1 tasks")
  have "engineStep s1 s2" using engineStep_finishTasks [of s1 e tasks] f by simp
  then show ?thesis using f by (auto simp: handleFindDependenciesFinish_def)
qed

lemma handleFindDependenciesAsync_runs:
  assumes "supportsFeature e s ARBITRARY_IMPORTS" "\<not> isResolving s"
  shows "\<exists>s1. engineStep (s\<lparr>isResolving := True\<rparr>) s1 \<and>
           handleFindDependenciesAsync e s
             = sendStateEvent (s1\<lparr>loadingMessage := None, isResolving := False\<rparr>)"
proof -
  obtain s1 tasks where a: "handleFindDependenciesStart e s = (s1, Some tasks)"
    "engineStep (s\<lparr>isResolving := True\<rparr>) s1"
    using handleFindDependenciesStart_runs [OF assms] by blast
  obtain s2 where b: "engineStep s1 s2"
    "fst (handleFindDependenciesFinish e s1 tasks)
       = sendStateEvent (s2\<lparr>loadingMessage := None, isResolving := False\<rparr>)"
    using handleFindDependenciesFinish_releases [of s1 e tasks] by blast
  have "handleFindDependenciesAsync e s
        = sendStateEvent (s2\<lparr>loadingMessage := None, isResolving := False\<rparr>)"
    using a(1) b(2) by (simp add: handleFindDependenciesAsync_def)
  then show ?thesis using engineStep_trans [OF a(2) b(1)] by blast
qed







section \<open>What the publication pipeline leaves alone\<close>

lemma ledgerOnly_refl [simp]: "ledgerOnly s s"
proof -
  have "s = s\<lparr>s3code := s3code s, diff := diff s, s3url := s3url s\<rparr>" by simp
  then show ?thesis unfolding ledgerOnly_def by blast
qed

lemma ledgerOnly_trans: "ledgerOnly s s1 \<Longrightarrow> ledgerOnly s1 s2 \<Longrightarrow> ledgerOnly s s2"
proof -
  assume "ledgerOnly s s1" "ledgerOnly s1 s2"
  then obtain c d u c' d' u' where
    "s1 = s\<lparr>s3code := c, diff := d, s3url := u\<rparr>"
    "s2 = s1\<lparr>s3code := c', diff := d', s3url := u'\<rparr>"
    unfolding ledgerOnly_def by blast
  then have "s2 = s\<lparr>s3code := c', diff := d', s3url := u'\<rparr>" by simp
  then show ?thesis unfolding ledgerOnly_def by blast
qed

lemma ledgerOnlyI:
  "ledgerOnly s (s\<lparr>s3code := c\<rparr>)" "ledgerOnly s (s\<lparr>diff := d\<rparr>)"
  "ledgerOnly s (s\<lparr>s3url := u\<rparr>)"
  "ledgerOnly s (s\<lparr>s3code := c, diff := d\<rparr>)"
  "ledgerOnly s (s\<lparr>diff := d, s3code := c, s3url := u\<rparr>)"
proof -
  have "s\<lparr>s3code := c\<rparr> = s\<lparr>s3code := c, diff := diff s, s3url := s3url s\<rparr>"
    "s\<lparr>diff := d\<rparr> = s\<lparr>s3code := s3code s, diff := d, s3url := s3url s\<rparr>"
    "s\<lparr>s3url := u\<rparr> = s\<lparr>s3code := s3code s, diff := diff s, s3url := u\<rparr>"
    "s\<lparr>s3code := c, diff := d\<rparr> = s\<lparr>s3code := c, diff := d, s3url := s3url s\<rparr>"
    "s\<lparr>diff := d, s3code := c, s3url := u\<rparr> = s\<lparr>s3code := c, diff := d, s3url := u\<rparr>"
    by simp_all
  then show "ledgerOnly s (s\<lparr>s3code := c\<rparr>)" "ledgerOnly s (s\<lparr>diff := d\<rparr>)"
    "ledgerOnly s (s\<lparr>s3url := u\<rparr>)"
    "ledgerOnly s (s\<lparr>s3code := c, diff := d\<rparr>)"
    "ledgerOnly s (s\<lparr>diff := d, s3code := c, s3url := u\<rparr>)"
    unfolding ledgerOnly_def by blast+
qed

lemma ledgerOnly_uploadHelperStart:
  "ledgerOnly s (fst (uploadHelperStart e s keys))"
proof (induction keys arbitrary: s)
  case Nil
  then show ?case by simp
next
  case (Cons key keys)
  show ?case
  proof (cases "map_of (files s) key")
    case None
    then show ?thesis using Cons [of s] by simp
  next
    case (Some r)
    show ?thesis
    proof (cases "contents (heap s r)")
      case (Blob b)
      let ?s1 = "s\<lparr>s3code := AList.update key (Blob b) (s3code s), diff := AList.update key [] (diff s)\<rparr>"
      have "fst (uploadHelperStart e s (key # keys)) = fst (uploadHelperStart e ?s1 keys)"
        using Some Blob by (simp split: prod.splits)
      then show ?thesis
        using ledgerOnly_trans [OF ledgerOnlyI(4) Cons [of ?s1]] by simp
    next
      case (Str code)
      define s1 where "s1 =
        (if prefix S3_BUCKET_URL code then
            s\<lparr>diff := AList.update key [] (diff s),
              s3code := AList.update key (Str code) (s3code s),
              s3url := AList.update key code (s3url s)\<rparr>
         else if truthy (map_of (s3url s) key) then
            s\<lparr>diff := AList.update key (getFileDiff e (map_of (s3code s) key) code) (diff s)\<rparr>
         else s\<lparr>diff := AList.update key (getFileDiff e (Some (Str [])) code) (diff s)\<rparr>)"
      have 1: "ledgerOnly s s1" unfolding s1_def by (simp add: ledgerOnlyI)
      have "fst (uploadHelperStart e s (key # keys)) = fst (uploadHelperStart e s1 keys)"
        using Some Str unfolding s1_def by (simp add: Let_def split: prod.splits)
      then show ?thesis using ledgerOnly_trans [OF 1 Cons [of s1]] by simp
    qed
  qed
qed

lemma ledgerOnly_uploadHelperFinish:
  "ledgerOnly s (fst (uploadHelperFinish e s waiting))"
proof (induction waiting arbitrary: s)
  case Nil
  then show ?case by simp
next
  case (Cons w waiting)
  obtain key c where w: "w = (key, c)" by (cases w)
  show ?case
  proof (cases "uploadAssetToS3 e c")
    case (Inl err)
    then show ?thesis using w by simp
  next
    case (Inr url)
    let ?s1 = "s\<lparr>s3url := AList.update key url (s3url s)\<rparr>"
    have "fst (uploadHelperFinish e s (w # waiting)) = fst (uploadHelperFinish e ?s1 waiting)"
      using w Inr by (simp add: Let_def split: prod.splits sum.splits)
    then show ?thesis using ledgerOnly_trans [OF ledgerOnlyI(3) Cons [of ?s1]] by simp
  qed
qed

lemma ledgerOnly_uploadHelper: "ledgerOnly s (fst (uploadHelper e s))"
proof -
  obtain s1 sizes waiting where a: "uploadHelperStart e s (map fst (files s)) = (s1, sizes, waiting)"
    by (cases "uploadHelperStart e s (map fst (files s))")
  have 1: "ledgerOnly s s1" using ledgerOnly_uploadHelperStart [of s e "map fst (files s)"] a by simp
  have 2: "ledgerOnly s1 (fst (uploadHelperFinish e s1 waiting))"
    by (rule ledgerOnly_uploadHelperFinish)
  have "fst (uploadHelper e s) = fst (uploadHelperFinish e s1 waiting)"
    using a by (simp add: uploadHelper_def split: prod.splits sum.splits)
  then show ?thesis using ledgerOnly_trans [OF 1 2] by simp
qed

lemma ledgerOnly_spillLoop: "ledgerOnly s (fst (spillLoop e s sz fileSize))"
proof (induction fileSize arbitrary: s sz)
  case Nil
  then show ?case by simp
next
  case (Cons entry fileSize)
  show ?case
  proof (cases "sz > MAX_PUBNUB_SIZE \<and> map_of (files s) (fst entry) \<noteq> None")
    case False
    then show ?thesis by (auto simp: Let_def)
  next
    case True
    then obtain r where r: "map_of (files s) (fst entry) = Some r" by auto
    let ?c = "contents (heap s r)"
    let ?s1 = "s\<lparr>s3code := AList.update (fst entry) ?c (s3code s),
                  diff := AList.update (fst entry) [] (diff s)\<rparr>"
    show ?thesis
    proof (cases "uploadCodeToS3 e ?c")
      case (Inl err)
      then show ?thesis using True r by (simp add: Let_def ledgerOnlyI)
    next
      case (Inr url)
      let ?s2 = "?s1\<lparr>s3url := AList.update (fst entry) url (s3url ?s1)\<rparr>"
      have "fst (spillLoop e s sz (entry # fileSize))
            = fst (spillLoop e ?s2 (payloadSize e ?s2) fileSize)"
        using True r Inr by (simp add: Let_def)
      moreover have "ledgerOnly s ?s2"
        by (rule ledgerOnly_trans [OF ledgerOnlyI(4) ledgerOnlyI(3)])
      ultimately show ?thesis
        using ledgerOnly_trans [OF _ Cons [of ?s2 "payloadSize e ?s2"]] by simp
    qed
  qed
qed

lemma ledgerOnly_handleUploadCodeAsync: "ledgerOnly s (fst (handleUploadCodeAsync e s))"
proof -
  obtain s1 r where u: "uploadHelper e s = (s1, r)" by (cases "uploadHelper e s")
  have 1: "ledgerOnly s s1" using ledgerOnly_uploadHelper [of s e] u by simp
  have 2: "ledgerOnly s1 (fst (spillLoop e s1 sz fs))" for sz fs by (rule ledgerOnly_spillLoop)
  show ?thesis
    using u 1 ledgerOnly_trans [OF 1 2]
    by (auto simp: handleUploadCodeAsync_def Let_def split: sum.splits)
qed

lemma handleFindDependenciesAsync_result:
  "files (handleFindDependenciesAsync e s) = files s \<and>
   sdkVersion (handleFindDependenciesAsync e s) = sdkVersion s \<and>
   pubnub (handleFindDependenciesAsync e s) = pubnub s \<and>
   isResolving (handleFindDependenciesAsync e s) = isResolving s \<and>
   loadingMessage (handleFindDependenciesAsync e s)
     = (if supportsFeature e s ARBITRARY_IMPORTS \<and> \<not> isResolving s then None
        else loadingMessage s) \<and>
   (\<exists>msgs. published (handleFindDependenciesAsync e s) = published s @ msgs \<and>
          list_all isLoadingMessage msgs)"
proof (cases "supportsFeature e s ARBITRARY_IMPORTS \<and> \<not> isResolving s")
  case False
  then have "handleFindDependenciesAsync e s = s"
    using handleFindDependenciesAsync_noop [of e s] by blast
  then show ?thesis using False by auto
next
  case True
  then obtain s1 where s1: "engineStep (s\<lparr>isResolving := True\<rparr>) s1"
    and h: "handleFindDependenciesAsync e s
             = sendStateEvent (s1\<lparr>loadingMessage := None, isResolving := False\<rparr>)"
    using handleFindDependenciesAsync_runs [of e s] by blast
  show ?thesis
    using s1 True unfolding h by (auto simp: engineStep_def sendStateEvent_def)
qed

lemma ledgerOnly_fields:
  "ledgerOnly s s' \<Longrightarrow>
   files s' = files s \<and> heap s' = heap s \<and> published s' = published s \<and>
   isResolving s' = isResolving s \<and> loadingMessage s' = loadingMessage s \<and>
   sdkVersion s' = sdkVersion s \<and> pubnub s' = pubnub s \<and> channel s' = channel s \<and>
   dependencies s' = dependencies s"
  by (auto simp: ledgerOnly_def)

lemma newMessages_append [simp]:
  "published s' = published s @ msgs \<Longrightarrow> newMessages s s' = msgs"
  by (simp add: newMessages_def)

lemma publishNotDebouncedAsync_loading:
  "truthy (loadingMessage s) \<Longrightarrow>
   publishNotDebouncedAsync e s = (sendLoadingEvent s, Inr ())"
  by (simp add: publishNotDebouncedAsync_def)

lemma publishNotDebouncedAsync_resolving:
  "\<not> truthy (loadingMessage s) \<Longrightarrow> isResolving s \<Longrightarrow>
   publishNotDebouncedAsync e s = (s, Inr ())"
  using handleFindDependenciesAsync_noop [of e s]
  by (simp add: publishNotDebouncedAsync_def Let_def)

text \<open>The call that gets past both gates, split at what the engine returns.\<close>

lemma publishNotDebouncedAsync_code:
  assumes "\<not> truthy (loadingMessage s)" "\<not> isResolving s"
  shows "\<exists>s1 msgs.
           files s1 = files s \<and> sdkVersion s1 = sdkVersion s \<and> \<not> isResolving s1 \<and>
           loadingMessage s1
             = (if supportsFeature e s ARBITRARY_IMPORTS then None else loadingMessage s) \<and>
           published s1 = published s @ msgs \<and> list_all isLoadingMessage msgs \<and>
           publishNotDebouncedAsync e s =
             (if supportsFeature e s MULTIPLE_FILES then
                (case handleUploadCodeAsync e s1 of
                   (s2, Inl err) \<Rightarrow> (s2, Inl err)
                 | (s2, Inr u) \<Rightarrow>
                     (publish s2 (CODE_diff (diff s2) (s3url s2) (getAnalyticsMetadata e s)),
                      Inr ()))
              else
                (case map_of (files s) ''app.js'' of
                   None \<Rightarrow> (s1, Inl (TypeError ''Cannot read property contents of undefined''))
                 | Some r \<Rightarrow>
                     (publish s1 (CODE_legacy (contents (heap s1 r)) (getAnalyticsMetadata e s)),
                      Inr ())))"
proof -
  define s1 where "s1 = (if supportsFeature e s ARBITRARY_IMPORTS
                         then handleFindDependenciesAsync e s else s)"
  have f: "files s1 = files s" "sdkVersion s1 = sdkVersion s" "\<not> isResolving s1"
    "loadingMessage s1
       = (if supportsFeature e s ARBITRARY_IMPORTS then None else loadingMessage s)"
    using handleFindDependenciesAsync_result [of e s] assms(2) by (auto simp: s1_def)
  have "\<exists>msgs. published s1 = published s @ msgs \<and> list_all isLoadingMessage msgs"
  proof (cases "supportsFeature e s ARBITRARY_IMPORTS")
    case True
    then show ?thesis using handleFindDependenciesAsync_result [of e s] by (simp add: s1_def)
  next
    case False
    then have "published s1 = published s @ [] \<and> list_all isLoadingMessage []"
      by (simp add: s1_def)
    then show ?thesis by blast
  qed
  then obtain msgs where m: "published s1 = published s @ msgs" "list_all isLoadingMessage msgs"
    by blast
  have g: "getAnalyticsMetadata e s1 = getAnalyticsMetadata e s"
    "supportsFeature e s1 MULTIPLE_FILES = supportsFeature e s MULTIPLE_FILES"
    using f(2) by (simp_all add: getAnalyticsMetadata_def supportsFeature_def)
  have "publishNotDebouncedAsync e s =
             (if supportsFeature e s MULTIPLE_FILES then
                (case handleUploadCodeAsync e s1 of
                   (s2, Inl err) \<Rightarrow> (s2, Inl err)
                 | (s2, Inr u) \<Rightarrow>
                     (publish s2 (CODE_diff (diff s2) (s3url s2) (getAnalyticsMetadata e s)),
                      Inr ()))
              else
                (case map_of (files s) ''app.js'' of
                   None \<Rightarrow> (s1, Inl (TypeError ''Cannot read property contents of undefined''))
                 | Some r \<Rightarrow>
                     (publish s1 (CODE_legacy (contents (heap s1 r)) (getAnalyticsMetadata e s)),
                      Inr ())))"
    using assms f(1,3) g
    by (simp add: publishNotDebouncedAsync_def Let_def s1_def [symmetric])
  then show ?thesis using f m by blast
qed

section \<open>The gates of the undebounced publish\<close>

lemma handleUploadCodeAsync_fields:
  "handleUploadCodeAsync e s1 = (s2, r) \<Longrightarrow>
   files s2 = files s1 \<and> heap s2 = heap s1 \<and> published s2 = published s1 \<and>
   isResolving s2 = isResolving s1 \<and> loadingMessage s2 = loadingMessage s1"
  using ledgerOnly_fields [OF ledgerOnly_handleUploadCodeAsync [of s1 e]] by simp

lemma constructor_loadingOk:
  "constructor e opts h = Inr (s1, tasks) \<Longrightarrow> loadingOk s1 \<and> pubnub s1"
proof -
  assume c: "constructor e opts h = Inr (s1, tasks)"
  let ?s = "initialSession e opts h"
  have i: "loadingMessage ?s = None" "\<not> isResolving ?s"
    by (simp_all add: initialSession_def Let_def)
  have "loadingOk (fst (handleFindDependenciesStart e ?s))"
  proof (cases "supportsFeature e ?s ARBITRARY_IMPORTS")
    case False
    then show ?thesis using i by (simp add: handleFindDependenciesStart_def loadingOk_def)
  next
    case True
    have "engineStep (?s\<lparr>isResolving := True\<rparr>)
            (fst (beginTasks e (?s\<lparr>isResolving := True\<rparr>) (map fst (files ?s))))"
      by (rule engineStep_beginTasks)
    then show ?thesis using True i
      by (auto simp: handleFindDependenciesStart_def loadingOk_def engineStep_def
          split: prod.splits)
  qed
  then show ?thesis using c i
    by (auto simp: constructor_def Let_def loadingOk_def split: if_splits prod.splits)
qed

lemma publishNotDebouncedAsync_loadingOk:
  "loadingOk s \<Longrightarrow> loadingOk (fst (publishNotDebouncedAsync e s))"
proof (cases "truthy (loadingMessage s)")
  case True
  assume "loadingOk s"
  then show ?thesis using True
    by (simp add: publishNotDebouncedAsync_loading sendLoadingEvent_def publish_def
        loadingOk_def)
next
  case False
  assume ok: "loadingOk s"
  show ?thesis
  proof (cases "isResolving s")
    case True
    then show ?thesis using False ok by (simp add: publishNotDebouncedAsync_resolving)
  next
    case nr: False
    obtain s1 msgs where s1:
      "loadingMessage s1
         = (if supportsFeature e s ARBITRARY_IMPORTS then None else loadingMessage s)"
      and p: "publishNotDebouncedAsync e s =
             (if supportsFeature e s MULTIPLE_FILES then
                (case handleUploadCodeAsync e s1 of
                   (s2, Inl err) \<Rightarrow> (s2, Inl err)
                 | (s2, Inr u) \<Rightarrow>
                     (publish s2 (CODE_diff (diff s2) (s3url s2) (getAnalyticsMetadata e s)),
                      Inr ()))
              else
                (case map_of (files s) ''app.js'' of
                   None \<Rightarrow> (s1, Inl (TypeError ''Cannot read property contents of undefined''))
                 | Some r \<Rightarrow>
                     (publish s1 (CODE_legacy (contents (heap s1 r)) (getAnalyticsMetadata e s)),
                      Inr ())))"
      using publishNotDebouncedAsync_code [OF False nr, of e] by blast
    have l1: "loadingOk s1" using s1 ok by (simp add: loadingOk_def)
    obtain s2 r where u: "handleUploadCodeAsync e s1 = (s2, r)"
      by (cases "handleUploadCodeAsync e s1")
    have l2: "loadingOk s2" using handleUploadCodeAsync_fields [OF u] l1
      by (simp add: loadingOk_def)
    show ?thesis
      unfolding p using l1 l2 u
      by (auto simp: loadingOk_def publish_def split: sum.splits option.splits)
  qed
qed


lemma publishNotDebouncedAsync_call:
  "(constructor e opts h = Inr (s0, tasks) \<longrightarrow> loadingOk s0 \<and> pubnub s0) \<and>
   (loadingOk s \<longrightarrow>
      loadingOk (handleFindDependenciesAsync e s) \<and>
      loadingOk (fst (publishNotDebouncedAsync e s)) \<and>
      (loadingMessage s \<noteq> None \<and> pubnub s \<longrightarrow>
         publishNotDebouncedAsync e s
           = (publish s (LOADING_MESSAGE (the (loadingMessage s))), Inr ())) \<and>
      (loadingMessage s \<noteq> None \<longrightarrow>
         list_all isLoadingMessage (newMessages s (fst (publishNotDebouncedAsync e s)))) \<and>
      (loadingMessage s = None \<and> isResolving s \<longrightarrow>
         publishNotDebouncedAsync e s = (s, Inr ())) \<and>
      (\<not> list_all isLoadingMessage (newMessages s (fst (publishNotDebouncedAsync e s))) \<longrightarrow>
         loadingMessage s = None \<and> \<not> isResolving s \<and>
         loadingMessage (fst (publishNotDebouncedAsync e s)) = None \<and>
         \<not> isResolving (fst (publishNotDebouncedAsync e s))))"
proof (intro conjI impI)
  assume "constructor e opts h = Inr (s0, tasks)"
  then show "loadingOk s0" "pubnub s0" using constructor_loadingOk by blast+
next
  assume ok: "loadingOk s"
  show "loadingOk (handleFindDependenciesAsync e s)"
    using handleFindDependenciesAsync_result [of e s] ok by (auto simp: loadingOk_def)
  show "loadingOk (fst (publishNotDebouncedAsync e s))"
    using ok by (rule publishNotDebouncedAsync_loadingOk)
  have t: "truthy (loadingMessage s) \<longleftrightarrow> loadingMessage s \<noteq> None"
    using ok by (auto simp: loadingOk_def truthy_def)
  {
    assume "loadingMessage s \<noteq> None \<and> pubnub s"
    then show "publishNotDebouncedAsync e s
           = (publish s (LOADING_MESSAGE (the (loadingMessage s))), Inr ())"
      using t by (simp add: publishNotDebouncedAsync_loading sendLoadingEvent_def)
  }
  {
    assume "loadingMessage s \<noteq> None"
    then show "list_all isLoadingMessage (newMessages s (fst (publishNotDebouncedAsync e s)))"
      using t
      by (simp add: publishNotDebouncedAsync_loading sendLoadingEvent_def publish_def
          newMessages_def isLoadingMessage_def)
  }
  {
    assume "loadingMessage s = None \<and> isResolving s"
    then show "publishNotDebouncedAsync e s = (s, Inr ())"
      using t by (simp add: publishNotDebouncedAsync_resolving)
  }
  assume c: "\<not> list_all isLoadingMessage (newMessages s (fst (publishNotDebouncedAsync e s)))"
  have n: "loadingMessage s = None"
  proof (rule ccontr)
    assume "loadingMessage s \<noteq> None"
    then have "list_all isLoadingMessage (newMessages s (fst (publishNotDebouncedAsync e s)))"
      using t
      by (simp add: publishNotDebouncedAsync_loading sendLoadingEvent_def publish_def
          newMessages_def isLoadingMessage_def)
    then show False using c by simp
  qed
  have nr: "\<not> isResolving s"
  proof
    assume "isResolving s"
    then have "publishNotDebouncedAsync e s = (s, Inr ())"
      using n t by (simp add: publishNotDebouncedAsync_resolving)
    then show False using c by (simp add: newMessages_def)
  qed
  show "loadingMessage s = None" by (rule n)
  show "\<not> isResolving s" by (rule nr)
  have nt: "\<not> truthy (loadingMessage s)" using n t by simp
  obtain s1 msgs where s1: "\<not> isResolving s1"
      "loadingMessage s1
         = (if supportsFeature e s ARBITRARY_IMPORTS then None else loadingMessage s)"
    and p: "publishNotDebouncedAsync e s =
             (if supportsFeature e s MULTIPLE_FILES then
                (case handleUploadCodeAsync e s1 of
                   (s2, Inl err) \<Rightarrow> (s2, Inl err)
                 | (s2, Inr u) \<Rightarrow>
                     (publish s2 (CODE_diff (diff s2) (s3url s2) (getAnalyticsMetadata e s)),
                      Inr ()))
              else
                (case map_of (files s) ''app.js'' of
                   None \<Rightarrow> (s1, Inl (TypeError ''Cannot read property contents of undefined''))
                 | Some r \<Rightarrow>
                     (publish s1 (CODE_legacy (contents (heap s1 r)) (getAnalyticsMetadata e s)),
                      Inr ())))"
    using publishNotDebouncedAsync_code [OF nt nr, of e] by blast
  have l1: "loadingMessage s1 = None" using s1(2) n by simp
  obtain s2 r where u: "handleUploadCodeAsync e s1 = (s2, r)"
    by (cases "handleUploadCodeAsync e s1")
  have f2: "isResolving s2 = isResolving s1" "loadingMessage s2 = loadingMessage s1"
    using handleUploadCodeAsync_fields [OF u] by simp_all
  show "loadingMessage (fst (publishNotDebouncedAsync e s)) = None"
    unfolding p using l1 f2 u by (auto simp: publish_def split: sum.splits option.splits)
  show "\<not> isResolving (fst (publishNotDebouncedAsync e s))"
    unfolding p using s1(1) f2 u by (auto simp: publish_def split: sum.splits option.splits)
qed


subsection \<open>The call cut at its awaits\<close>

lemma handleUploadCodeAsync_steps:
  "handleUploadCodeAsync e s =
     (case uploadHelperStart e s (map fst (files s)) of
        (s1, sizes, waiting) \<Rightarrow> handleUploadCodeFinish e s1 sizes waiting)"
  by (auto simp: handleUploadCodeAsync_def uploadHelper_def handleUploadCodeFinish_def Let_def
      split: prod.splits sum.splits)

lemma publishNotDebouncedAsync_steps:
  "publishNotDebouncedAsync e s =
     (case publishNotDebouncedStart e s of (s1, step) \<Rightarrow> resumeEngine e s1 step)"
proof (cases "truthy (loadingMessage s)")
  case True
  then show ?thesis by (simp add: publishNotDebouncedAsync_def publishNotDebouncedStart_def)
next
  case False
  have check: "(case publishNotDebouncedCheck e s1 of (s2, u) \<Rightarrow> resumeUpload e s2 u) =
        (if isResolving s1 then (s1, Inr ())
           else
             let metadata = getAnalyticsMetadata e s1
             in if supportsFeature e s1 MULTIPLE_FILES then
                  (case handleUploadCodeAsync e s1 of
                     (s2, Inl err) \<Rightarrow> (s2, Inl err)
                   | (s2, Inr u) \<Rightarrow>
                       (publish s2 (CODE_diff (diff s2) (s3url s2) metadata), Inr ()))
                else
                  (case map_of (files s1) ''app.js'' of
                     None \<Rightarrow>
                       (s1, Inl (TypeError ''Cannot read property contents of undefined''))
                   | Some r \<Rightarrow>
                       (publish s1 (CODE_legacy (contents (heap s1 r)) metadata), Inr ())))" for s1
    by (auto simp: publishNotDebouncedCheck_def Let_def handleUploadCodeAsync_steps
        publishNotDebouncedSend_def split: prod.splits option.splits)
  show ?thesis
  proof (cases "supportsFeature e s ARBITRARY_IMPORTS")
    case nf: False
    show ?thesis using False nf check [of s]
      by (simp add: publishNotDebouncedAsync_def publishNotDebouncedStart_def Let_def
          split: prod.splits)
  next
    case True
    obtain s1 tasks where st: "handleFindDependenciesStart e s = (s1, tasks)"
      by (cases "handleFindDependenciesStart e s")
    have h: "handleFindDependenciesAsync e s
          = (case tasks of None \<Rightarrow> s1 | Some ts \<Rightarrow> fst (handleFindDependenciesFinish e s1 ts))"
      using st by (simp add: handleFindDependenciesAsync_def split: option.splits)
    show ?thesis using False True st check
      by (simp add: publishNotDebouncedAsync_def publishNotDebouncedStart_def Let_def h)
  qed
qed

lemma ledgerOnly_handleUploadCodeFinish:
  "ledgerOnly s (fst (handleUploadCodeFinish e s sizes waiting))"
proof -
  obtain s1 r where u: "uploadHelperFinish e s waiting = (s1, r)"
    by (cases "uploadHelperFinish e s waiting")
  have 1: "ledgerOnly s s1" using ledgerOnly_uploadHelperFinish [of s e waiting] u by simp
  have 2: "ledgerOnly s1 (fst (spillLoop e s1 sz fs))" for sz fs by (rule ledgerOnly_spillLoop)
  show ?thesis
    using 1 ledgerOnly_trans [OF 1 2] u
    by (auto simp: handleUploadCodeFinish_def Let_def split: sum.splits)
qed

lemma publishNotDebouncedSend_publishes:
  assumes "snd (publishNotDebouncedSend e s metadata sizes waiting) = Inr ()"
  shows "(\<exists>d u. published (fst (publishNotDebouncedSend e s metadata sizes waiting))
                  = published s @ [CODE_diff d u metadata]) \<and>
         isResolving (fst (publishNotDebouncedSend e s metadata sizes waiting)) = isResolving s \<and>
         loadingMessage (fst (publishNotDebouncedSend e s metadata sizes waiting))
           = loadingMessage s"
proof -
  obtain s1 r where u: "handleUploadCodeFinish e s sizes waiting = (s1, r)"
    by (cases "handleUploadCodeFinish e s sizes waiting")
  have f: "published s1 = published s" "isResolving s1 = isResolving s"
    "loadingMessage s1 = loadingMessage s"
    using ledgerOnly_fields [OF ledgerOnly_handleUploadCodeFinish [of s e sizes waiting]] u
    by simp_all
  show ?thesis
    using assms u f
    by (cases r) (auto simp: publishNotDebouncedSend_def publish_def)
qed

text \<open>
  C8, as the code has it. \<^verbatim>\<open>loadingMessage\<close> is only ever null or
  \<^verbatim>\<open>Installing dependencies\<close>: the constructor leaves it so and the engine and the
  publish keep it so. A call of \<^verbatim>\<open>_publishNotDebouncedAsync\<close> tests \<^verbatim>\<open>loadingMessage\<close>
  once, when it is called, and \<^verbatim>\<open>isResolving\<close> once, when its engine run has returned;
  after the \<^verbatim>\<open>await\<close> of the uploads it tests nothing. So:

  \<^item> a call made while \<^verbatim>\<open>loadingMessage\<close> is set publishes the \<^verbatim>\<open>LOADING_MESSAGE\<close>
    envelope with that message (when the transport client exists) and nothing
    else, and is over at once, whatever \<^verbatim>\<open>isResolving\<close> is;
  \<^item> the second test, reached while \<^verbatim>\<open>isResolving\<close> is true, ends the call with
    nothing published and nothing changed; so does a whole call made while
    \<^verbatim>\<open>loadingMessage\<close> is null and \<^verbatim>\<open>isResolving\<close> is true;
  \<^item> a call that nothing interleaves with is the run of its steps one after the
    other, and whenever it publishes anything that is not a loading message,
    \<^verbatim>\<open>loadingMessage\<close> was null and \<^verbatim>\<open>isResolving\<close> false when it was called, and they
    are null and false in the session from which the \<^verbatim>\<open>CODE\<close> envelope is published;
  \<^item> the step that is resumed when the uploads have settled and that returns
    publishes exactly one \<^verbatim>\<open>CODE\<close> envelope and leaves both flags as it finds them,
    whatever they are.
\<close>

theorem publishNotDebouncedAsync_gates:
  "(constructor e opts h = Inr (s0, tasks) \<longrightarrow> loadingOk s0 \<and> pubnub s0) \<and>
   (loadingOk s \<longrightarrow>
      loadingOk (handleFindDependenciesAsync e s) \<and>
      loadingOk (fst (publishNotDebouncedAsync e s)) \<and>
      (loadingMessage s \<noteq> None \<longrightarrow>
         publishNotDebouncedStart e s = (sendLoadingEvent s, Ran (Done (Inr ()))) \<and>
         list_all isLoadingMessage (newMessages s (sendLoadingEvent s))) \<and>
      (loadingMessage s \<noteq> None \<and> pubnub s \<longrightarrow>
         sendLoadingEvent s = publish s (LOADING_MESSAGE (the (loadingMessage s))) \<and>
         publishNotDebouncedAsync e s
           = (publish s (LOADING_MESSAGE (the (loadingMessage s))), Inr ())) \<and>
      (loadingMessage s = None \<and> isResolving s \<longrightarrow>
         publishNotDebouncedAsync e s = (s, Inr ())) \<and>
      (\<not> list_all isLoadingMessage (newMessages s (fst (publishNotDebouncedAsync e s))) \<longrightarrow>
         loadingMessage s = None \<and> \<not> isResolving s \<and>
         loadingMessage (fst (publishNotDebouncedAsync e s)) = None \<and>
         \<not> isResolving (fst (publishNotDebouncedAsync e s)))) \<and>
   (isResolving s \<longrightarrow> publishNotDebouncedCheck e s = (s, Done (Inr ()))) \<and>
   publishNotDebouncedAsync e s
     = (case publishNotDebouncedStart e s of (s1, step) \<Rightarrow> resumeEngine e s1 step) \<and>
   (snd (publishNotDebouncedSend e s metadata sizes waiting) = Inr () \<longrightarrow>
      (\<exists>d u. published (fst (publishNotDebouncedSend e s metadata sizes waiting))
               = published s @ [CODE_diff d u metadata]) \<and>
      isResolving (fst (publishNotDebouncedSend e s metadata sizes waiting)) = isResolving s \<and>
      loadingMessage (fst (publishNotDebouncedSend e s metadata sizes waiting))
        = loadingMessage s)"
proof -
  note call = publishNotDebouncedAsync_call [of e opts h s0 tasks s]
  have start: "publishNotDebouncedStart e s = (sendLoadingEvent s, Ran (Done (Inr ()))) \<and>
         list_all isLoadingMessage (newMessages s (sendLoadingEvent s))"
    if "loadingOk s" "loadingMessage s \<noteq> None"
    using that
    by (auto simp: loadingOk_def truthy_def publishNotDebouncedStart_def sendLoadingEvent_def
        publish_def newMessages_def isLoadingMessage_def)
  have send: "sendLoadingEvent s = publish s (LOADING_MESSAGE (the (loadingMessage s)))"
    if "loadingOk s" "loadingMessage s \<noteq> None \<and> pubnub s"
    using that by (auto simp: loadingOk_def truthy_def sendLoadingEvent_def)
  have check: "publishNotDebouncedCheck e s = (s, Done (Inr ()))" if "isResolving s"
    using that by (simp add: publishNotDebouncedCheck_def)
  note steps = publishNotDebouncedAsync_steps [of e s]
  note resumed = publishNotDebouncedSend_publishes [of e s metadata sizes waiting]
  show ?thesis
    apply (intro conjI impI)
    using call start send check steps resumed by blast+
qed

text \<open>
  The gates at work: a session with a loading message publishes that message, a
  resolving session publishes nothing, a session on a legacy SDK with both flags
  clear publishes its code, and the last step publishes code from a resolving
  session.
\<close>

theorem publishNotDebouncedAsync_gates_witness:
  "loadingOk (lodashSession\<lparr>loadingMessage := Some ''Installing dependencies''\<rparr>) \<and>
   pubnub (lodashSession\<lparr>loadingMessage := Some ''Installing dependencies''\<rparr>) \<and>
   publishNotDebouncedAsync demoEnv
       (lodashSession\<lparr>loadingMessage := Some ''Installing dependencies''\<rparr>)
     = (publish (lodashSession\<lparr>loadingMessage := Some ''Installing dependencies''\<rparr>)
          (LOADING_MESSAGE ''Installing dependencies''), Inr ()) \<and>
   publishNotDebouncedStart demoEnv
       (lodashSession\<lparr>loadingMessage := Some ''Installing dependencies''\<rparr>)
     = (publish (lodashSession\<lparr>loadingMessage := Some ''Installing dependencies''\<rparr>)
          (LOADING_MESSAGE ''Installing dependencies''), Ran (Done (Inr ()))) \<and>
   loadingOk (lodashSession\<lparr>isResolving := True\<rparr>) \<and>
   publishNotDebouncedAsync demoEnv (lodashSession\<lparr>isResolving := True\<rparr>)
     = (lodashSession\<lparr>isResolving := True\<rparr>, Inr ()) \<and>
   publishNotDebouncedCheck demoEnv (lodashSession\<lparr>isResolving := True\<rparr>)
     = (lodashSession\<lparr>isResolving := True\<rparr>, Done (Inr ())) \<and>
   loadingOk legacySession \<and>
   \<not> list_all isLoadingMessage
        (newMessages legacySession (fst (publishNotDebouncedAsync demoEnv legacySession))) \<and>
   \<not> isResolving (fst (publishNotDebouncedAsync demoEnv legacySession)) \<and>
   snd (publishNotDebouncedSend demoEnv (lodashSession\<lparr>isResolving := True\<rparr>) [] [] []) = Inr () \<and>
   isResolving (fst (publishNotDebouncedSend demoEnv (lodashSession\<lparr>isResolving := True\<rparr>)
                       [] [] [])) \<and>
   (\<exists>s0 tasks. constructor demoEnv demoOptions demoHeap = Inr (s0, tasks) \<and> loadingOk s0)"
proof -
  let ?l = "lodashSession\<lparr>loadingMessage := Some ''Installing dependencies''\<rparr>"
  let ?r = "lodashSession\<lparr>isResolving := True\<rparr>"
  have a: "loadingOk ?l" "pubnub ?l" "loadingMessage ?l \<noteq> None"
    "the (loadingMessage ?l) = ''Installing dependencies''"
    by (simp_all add: loadingOk_def lodashSession_def demoSession_def)
  have b: "loadingOk ?r" "loadingMessage ?r = None" "isResolving ?r" "loadingOk legacySession"
    by (simp_all add: loadingOk_def lodashSession_def legacySession_def demoSession_def
        initialSession_def Let_def)
  have c: "\<not> list_all isLoadingMessage
        (newMessages legacySession (fst (publishNotDebouncedAsync demoEnv legacySession)))"
    by code_simp
  have s: "snd (publishNotDebouncedSend demoEnv ?r [] [] []) = Inr ()"
    by code_simp
  obtain s0 tasks where d: "constructor demoEnv demoOptions demoHeap = Inr (s0, tasks)"
    by (cases "constructor demoEnv demoOptions demoHeap")
      (auto simp: constructor_def Let_def initialSession_def demoOptions_def demoEnv_def
        orElse_def MIN_CHANNEL_LENGTH_def split: prod.splits if_splits)
  note t = publishNotDebouncedAsync_gates [of demoEnv demoOptions demoHeap s0 tasks]
  have 1: "publishNotDebouncedAsync demoEnv ?l
             = (publish ?l (LOADING_MESSAGE ''Installing dependencies''), Inr ())"
    "publishNotDebouncedStart demoEnv ?l
             = (publish ?l (LOADING_MESSAGE ''Installing dependencies''), Ran (Done (Inr ())))"
    using t [of ?l] a by simp_all
  have 2: "publishNotDebouncedAsync demoEnv ?r = (?r, Inr ())"
    "publishNotDebouncedCheck demoEnv ?r = (?r, Done (Inr ()))"
    using t [of ?r] b by simp_all
  have 3: "\<not> isResolving (fst (publishNotDebouncedAsync demoEnv legacySession))"
    using t [of legacySession] b(4) c by blast
  have 4: "loadingOk s0" using t [of legacySession] d by blast
  have 5: "isResolving (fst (publishNotDebouncedSend demoEnv ?r [] [] []))"
    using t [of ?r "[]" "[]" "[]"] s b(3) by simp
  show ?thesis using a(1,2) b(1,4) c s d 1 2 3 4 5 by blast
qed


text \<open>
  C8, where the sentence fails. First, the \<^verbatim>\<open>CODE\<close> envelope of a call that was
  waiting for its upload goes out while \<^verbatim>\<open>isResolving\<close> is true and
  \<^verbatim>\<open>loadingMessage\<close> is set: both were clear when the call tested them, then an edit
  and a second call started a resolution, and the first call, resumed, tests
  nothing. Second, a call made while \<^verbatim>\<open>isResolving\<close> is true and \<^verbatim>\<open>loadingMessage\<close> is
  set does not return without publishing anything: it publishes a loading message.
\<close>

theorem publishNotDebouncedAsync_overtaken:
  "(case publishOvertaken of
      (s, r) \<Rightarrow>
        r = Inr () \<and> isResolving s \<and>
        loadingMessage s = Some ''Installing dependencies'' \<and>
        published s
          = [LOADING_MESSAGE ''Installing dependencies'',
             CODE_diff [(''app.js'', ''console.log(1)''), (''image.png'', [])]
               [(''image.png'', ''https://snack-code-uploads/asset'')]
               [(''expoSdkVersion'', ''21.0.0'')]]) \<and>
   isResolving resolvingSession \<and>
   published resolvingSession = [LOADING_MESSAGE ''Installing dependencies''] \<and>
   (case publishNotDebouncedAsync demoEnv resolvingSession of
      (s, r) \<Rightarrow>
        r = Inr () \<and> isResolving s \<and>
        published s
          = [LOADING_MESSAGE ''Installing dependencies'',
             LOADING_MESSAGE ''Installing dependencies''])"
  by code_simp


section \<open>The legacy payload\<close>




end
